theory Spec2Isabelle
  imports Complex_Main "HOL-Library.AList" "HOL-Library.Multiset" "HOL-Library.Sublist"
begin

unbundle bit_operations_syntax

section \<open>Go strings and the standard-library functions the router calls\<close>

text \<open>
  A Go string is a sequence of bytes; \<^typ>\<open>string\<close> is a list of 8-bit characters, so
  \<^term>\<open>length\<close> is Go's \<open>len\<close> and the keywords of the source, which are Chinese, are
  written as their UTF-8 bytes.

  \<open>strings.Contains(s, substr)\<close>: \<open>substr\<close> occurs in \<open>s\<close> as a contiguous run of bytes.
\<close>

fun strings_Contains :: "string \<Rightarrow> string \<Rightarrow> bool" where
  "strings_Contains [] substr = (substr = [])"
| "strings_Contains (c # s) substr = (prefix substr (c # s) \<or> strings_Contains s substr)"

text \<open>
  \<open>utf8.DecodeRuneInString\<close>, which \<open>for _, r := range s\<close> uses: the code point at the head
  of the string and its width in bytes; an ill-formed sequence decodes to \<open>RuneError\<close> with
  width 1.
\<close>

definition RuneError :: nat where
  "RuneError = 0xFFFD"

definition byte_in :: "char \<Rightarrow> nat \<Rightarrow> nat \<Rightarrow> bool" where
  "byte_in c lo hi = (lo \<le> of_char c \<and> of_char c \<le> hi)"

definition cont_bits :: "char \<Rightarrow> nat" where
  "cont_bits c = of_char c mod 64"

fun DecodeRune :: "string \<Rightarrow> nat \<times> nat" where
  "DecodeRune [] = (RuneError, 0)"
| "DecodeRune (c0 # rest) =
     (let b0 = of_char c0 :: nat in
      if b0 < 0x80 then (b0, 1)
      else if b0 < 0xC2 then (RuneError, 1)
      else if b0 < 0xE0 then
        (case rest of
           c1 # _ \<Rightarrow>
             if byte_in c1 0x80 0xBF then ((b0 mod 32) * 64 + cont_bits c1, 2)
             else (RuneError, 1)
         | _ \<Rightarrow> (RuneError, 1))
      else if b0 < 0xF0 then
        (case rest of
           c1 # c2 # _ \<Rightarrow>
             if byte_in c1 (if b0 = 0xE0 then 0xA0 else 0x80) (if b0 = 0xED then 0x9F else 0xBF)
                \<and> byte_in c2 0x80 0xBF
             then ((b0 mod 16) * 4096 + cont_bits c1 * 64 + cont_bits c2, 3)
             else (RuneError, 1)
         | _ \<Rightarrow> (RuneError, 1))
      else if b0 < 0xF5 then
        (case rest of
           c1 # c2 # c3 # _ \<Rightarrow>
             if byte_in c1 (if b0 = 0xF0 then 0x90 else 0x80) (if b0 = 0xF4 then 0x8F else 0xBF)
                \<and> byte_in c2 0x80 0xBF \<and> byte_in c3 0x80 0xBF
             then ((b0 mod 8) * 262144 + cont_bits c1 * 4096 + cont_bits c2 * 64 + cont_bits c3, 4)
             else (RuneError, 1)
         | _ \<Rightarrow> (RuneError, 1))
      else (RuneError, 1))"

text \<open>The runes of a string in order, each with the bytes it was decoded from.\<close>

function runes :: "string \<Rightarrow> (nat \<times> string) list" where
  "runes [] = []"
| "runes (c # s) =
     (let w = snd (DecodeRune (c # s))
      in (fst (DecodeRune (c # s)), take (max 1 w) (c # s)) # runes (drop (max 1 w) (c # s)))"
  by pat_completeness auto
termination
  by (relation "measure length") auto

text \<open>\<open>unicode.IsSpace\<close>: the code points with the Unicode White\_Space property.\<close>

definition unicode_IsSpace :: "nat \<Rightarrow> bool" where
  "unicode_IsSpace r =
     ((0x09 \<le> r \<and> r \<le> 0x0D) \<or> r = 0x20 \<or> r = 0x85 \<or> r = 0xA0 \<or> r = 0x1680
      \<or> (0x2000 \<le> r \<and> r \<le> 0x200A) \<or> r = 0x2028 \<or> r = 0x2029 \<or> r = 0x202F
      \<or> r = 0x205F \<or> r = 0x3000)"

text \<open>
  \<open>strings.FieldsFunc\<close>: one pass over the runes; \<open>cur\<close> holds the bytes of the field that
  is open (the span \<open>[start, end)\<close> of the source), \<open>None\<close> when no field is open
  (\<open>start < 0\<close>). \<open>strings.Fields(s)\<close> is \<open>FieldsFunc(s, unicode.IsSpace)\<close>; its ASCII fast
  path computes the same fields.
\<close>

fun FieldsFunc_loop :: "(nat \<Rightarrow> bool) \<Rightarrow> (nat \<times> string) list \<Rightarrow> string option \<Rightarrow> string list" where
  "FieldsFunc_loop f [] cur = (case cur of None \<Rightarrow> [] | Some fld \<Rightarrow> [fld])"
| "FieldsFunc_loop f ((r, bs) # rs) cur =
     (if f r then
        (case cur of
           None \<Rightarrow> FieldsFunc_loop f rs None
         | Some fld \<Rightarrow> fld # FieldsFunc_loop f rs None)
      else
        (case cur of
           None \<Rightarrow> FieldsFunc_loop f rs (Some bs)
         | Some fld \<Rightarrow> FieldsFunc_loop f rs (Some (fld @ bs))))"

definition strings_Fields :: "string \<Rightarrow> string list" where
  "strings_Fields s = FieldsFunc_loop unicode_IsSpace (runes s) None"

section \<open>Query analysis (intelligent\_query\_router.go)\<close>

text \<open>\<open>SearchStrategy\<close> is a Go string type with three named constants.\<close>

type_synonym SearchStrategy = string

definition HybridTraditional :: SearchStrategy where
  "HybridTraditional = ''hybrid_traditional''"

definition GraphRAG :: SearchStrategy where
  "GraphRAG = ''graph_rag''"

definition Combined :: SearchStrategy where
  "Combined = ''combined''"

text \<open>
  \<open>QueryAnalysis\<close>. The \<open>float64\<close> fields are modelled as reals: the only arithmetic on
  them is one division of two small integers and comparisons with the constants 0.3 and
  0.5, none of which is within rounding distance of a quotient \<open>n/9\<close> or \<open>n/8\<close>.
\<close>

record QueryAnalysis =
  QueryComplexity :: real
  RelationshipIntensity :: real
  ReasoningRequired :: bool
  EntityCount :: int
  RecommendedStrategy :: SearchStrategy
  Confidence :: real
  Reasoning :: string

definition complexityKeywords :: "string list" where
  "complexityKeywords =
    [[CHR 0xE4, CHR 0xB8, CHR 0xBA, CHR 0xE4, CHR 0xBB, CHR 0x80, CHR 0xE4, CHR 0xB9, CHR 0x88],
     [CHR 0xE5, CHR 0xA6, CHR 0x82, CHR 0xE4, CHR 0xBD, CHR 0x95],
     [CHR 0xE5, CHR 0x85, CHR 0xB3, CHR 0xE7, CHR 0xB3, CHR 0xBB],
     [CHR 0xE5, CHR 0xBD, CHR 0xB1, CHR 0xE5, CHR 0x93, CHR 0x8D],
     [CHR 0xE5, CHR 0x8E, CHR 0x9F, CHR 0xE5, CHR 0x9B, CHR 0xA0],
     [CHR 0xE6, CHR 0xAF, CHR 0x94, CHR 0xE8, CHR 0xBE, CHR 0x83],
     [CHR 0xE5, CHR 0x8C, CHR 0xBA, CHR 0xE5, CHR 0x88, CHR 0xAB],
     [CHR 0xE5, CHR 0x88, CHR 0x86, CHR 0xE6, CHR 0x9E, CHR 0x90],
     [CHR 0xE6, CHR 0x8E, CHR 0xA8, CHR 0xE7, CHR 0x90, CHR 0x86]]"

definition relationKeywords :: "string list" where
  "relationKeywords =
    [[CHR 0xE9, CHR 0x85, CHR 0x8D],
     [CHR 0xE6, CHR 0x90, CHR 0xAD, CHR 0xE9, CHR 0x85, CHR 0x8D],
     [CHR 0xE7, CHR 0xBB, CHR 0x84, CHR 0xE5, CHR 0x90, CHR 0x88],
     [CHR 0xE7, CHR 0x9B, CHR 0xB8, CHR 0xE5, CHR 0x85, CHR 0xB3],
     [CHR 0xE8, CHR 0x81, CHR 0x94, CHR 0xE7, CHR 0xB3, CHR 0xBB],
     [CHR 0xE8, CHR 0xBF, CHR 0x9E, CHR 0xE6, CHR 0x8E, CHR 0xA5],
     [CHR 0xE9, CHR 0x80, CHR 0x82, CHR 0xE5, CHR 0x90, CHR 0x88],
     [CHR 0xE5, CHR 0x8C, CHR 0xB9, CHR 0xE9, CHR 0x85, CHR 0x8D]]"

definition reasoning_graph_rag :: string where
  "reasoning_graph_rag =
    [CHR 0xE6, CHR 0x9F, CHR 0xA5, CHR 0xE8, CHR 0xAF, CHR 0xA2, CHR 0xE6, CHR 0xB6,
     CHR 0x89, CHR 0xE5, CHR 0x8F, CHR 0x8A, CHR 0xE5, CHR 0xA4, CHR 0x8D, CHR 0xE6,
     CHR 0x9D, CHR 0x82, CHR 0xE5, CHR 0x85, CHR 0xB3, CHR 0xE7, CHR 0xB3, CHR 0xBB,
     CHR 0xE6, CHR 0x88, CHR 0x96, CHR 0xE6, CHR 0x8E, CHR 0xA8, CHR 0xE7, CHR 0x90,
     CHR 0x86, CHR 0xEF, CHR 0xBC, CHR 0x8C, CHR 0xE9, CHR 0x80, CHR 0x82, CHR 0xE5,
     CHR 0x90, CHR 0x88, CHR 0xE4, CHR 0xBD, CHR 0xBF, CHR 0xE7, CHR 0x94, CHR 0xA8,
     CHR 0xE5, CHR 0x9B, CHR 0xBE, CHR 0x52, CHR 0x41, CHR 0x47, CHR 0xE6, CHR 0xA3,
     CHR 0x80, CHR 0xE7, CHR 0xB4, CHR 0xA2]"

definition reasoning_combined :: string where
  "reasoning_combined =
    [CHR 0xE6, CHR 0x9F, CHR 0xA5, CHR 0xE8, CHR 0xAF, CHR 0xA2, CHR 0xE5, CHR 0x85,
     CHR 0xB7, CHR 0xE6, CHR 0x9C, CHR 0x89, CHR 0xE4, CHR 0xB8, CHR 0xAD, CHR 0xE7,
     CHR 0xAD, CHR 0x89, CHR 0xE5, CHR 0xA4, CHR 0x8D, CHR 0xE6, CHR 0x9D, CHR 0x82,
     CHR 0xE5, CHR 0xBA, CHR 0xA6, CHR 0xEF, CHR 0xBC, CHR 0x8C, CHR 0xE5, CHR 0xBB,
     CHR 0xBA, CHR 0xE8, CHR 0xAE, CHR 0xAE, CHR 0xE7, CHR 0xBB, CHR 0x84, CHR 0xE5,
     CHR 0x90, CHR 0x88, CHR 0xE4, CHR 0xBD, CHR 0xBF, CHR 0xE7, CHR 0x94, CHR 0xA8,
     CHR 0xE5, CHR 0xA4, CHR 0x9A, CHR 0xE7, CHR 0xA7, CHR 0x8D, CHR 0xE6, CHR 0xA3,
     CHR 0x80, CHR 0xE7, CHR 0xB4, CHR 0xA2, CHR 0xE7, CHR 0xAD, CHR 0x96, CHR 0xE7,
     CHR 0x95, CHR 0xA5]"

definition reasoning_traditional :: string where
  "reasoning_traditional =
    [CHR 0xE6, CHR 0x9F, CHR 0xA5, CHR 0xE8, CHR 0xAF, CHR 0xA2, CHR 0xE7, CHR 0x9B,
     CHR 0xB8, CHR 0xE5, CHR 0xAF, CHR 0xB9, CHR 0xE7, CHR 0xAE, CHR 0x80, CHR 0xE5,
     CHR 0x8D, CHR 0x95, CHR 0xEF, CHR 0xBC, CHR 0x8C, CHR 0xE4, CHR 0xBD, CHR 0xBF,
     CHR 0xE7, CHR 0x94, CHR 0xA8, CHR 0xE4, CHR 0xBC, CHR 0xA0, CHR 0xE7, CHR 0xBB,
     CHR 0x9F, CHR 0xE6, CHR 0xB7, CHR 0xB7, CHR 0xE5, CHR 0x90, CHR 0x88, CHR 0xE6,
     CHR 0xA3, CHR 0x80, CHR 0xE7, CHR 0xB4, CHR 0xA2, CHR 0xE5, CHR 0x8D, CHR 0xB3,
     CHR 0xE5, CHR 0x8F, CHR 0xAF, CHR 0xE6, CHR 0xBB, CHR 0xA1, CHR 0xE8, CHR 0xB6,
     CHR 0xB3, CHR 0xE9, CHR 0x9C, CHR 0x80, CHR 0xE6, CHR 0xB1, CHR 0x82]"

text \<open>The counting loop \<open>for _, keyword := range keywords { if strings.Contains(...) { n++ } }\<close>.\<close>

definition count_hits :: "string \<Rightarrow> string list \<Rightarrow> int" where
  "count_hits query keywords =
     fold (\<lambda>keyword n. if strings_Contains query keyword then n + 1 else n) keywords 0"

definition ruleBasedAnalysis :: "string \<Rightarrow> QueryAnalysis" where
  "ruleBasedAnalysis query =
     (let complexityCount = count_hits query complexityKeywords;
          complexity = real_of_int complexityCount / real (length complexityKeywords);
          relationCount = count_hits query relationKeywords;
          relationIntensity = real_of_int relationCount / real (length relationKeywords);
          words = strings_Fields query;
          entityCount = int (length words);
          reasoningRequired = (complexity > 0.3 \<or> relationIntensity > 0.3);
          (strategy, confidence, reasoning) =
            (if complexity > 0.5 \<or> relationIntensity > 0.5
               then (GraphRAG, 0.8, reasoning_graph_rag)
             else if complexity > 0.3 \<or> relationIntensity > 0.3
               then (Combined, 0.7, reasoning_combined)
             else (HybridTraditional, 0.6, reasoning_traditional))
      in \<lparr>QueryComplexity = complexity,
          RelationshipIntensity = relationIntensity,
          ReasoningRequired = reasoningRequired,
          EntityCount = entityCount,
          RecommendedStrategy = strategy,
          Confidence = confidence,
          Reasoning = reasoning\<rparr>)"

text \<open>\<open>AnalyzeQuery\<close> has no LLM path: it returns the rule-based analysis and a nil error.\<close>

definition AnalyzeQuery :: "string \<Rightarrow> QueryAnalysis \<times> string option" where
  "AnalyzeQuery query = (ruleBasedAnalysis query, None)"

section \<open>Route statistics\<close>

text \<open>
  The counters are Go \<open>int\<close>s (64 bits); they only ever grow by one per routed query, so
  the wrap-around at \<open>2^63\<close> calls is out of reach and they are modelled as integers.
\<close>

record RouteStatistics =
  TraditionalCount :: int
  GraphRAGCount :: int
  CombinedCount :: int
  TotalQueries :: int
  TraditionalRatio :: real
  GraphRAGRatio :: real
  CombinedRatio :: real

text \<open>The statistics of \<open>NewIntelligentQueryRouter\<close>: every field is zero.\<close>

definition new_routeStats :: RouteStatistics where
  "new_routeStats =
     \<lparr>TraditionalCount = 0, GraphRAGCount = 0, CombinedCount = 0, TotalQueries = 0,
      TraditionalRatio = 0, GraphRAGRatio = 0, CombinedRatio = 0\<rparr>"

definition updateRouteStats :: "SearchStrategy \<Rightarrow> RouteStatistics \<Rightarrow> RouteStatistics" where
  "updateRouteStats strategy st =
     (let st1 = st\<lparr>TotalQueries := TotalQueries st + 1\<rparr>;
          st2 = (if strategy = HybridTraditional
                   then st1\<lparr>TraditionalCount := TraditionalCount st1 + 1\<rparr>
                 else if strategy = GraphRAG
                   then st1\<lparr>GraphRAGCount := GraphRAGCount st1 + 1\<rparr>
                 else if strategy = Combined
                   then st1\<lparr>CombinedCount := CombinedCount st1 + 1\<rparr>
                 else st1);
          total = real_of_int (TotalQueries st2)
      in if total > 0
           then st2\<lparr>TraditionalRatio := real_of_int (TraditionalCount st2) / total,
                    GraphRAGRatio := real_of_int (GraphRAGCount st2) / total,
                    CombinedRatio := real_of_int (CombinedCount st2) / total\<rparr>
         else st2)"

section \<open>Documents, slices and panics\<close>

text \<open>
  The values a metadata map holds (\<open>interface{}\<close>). \<open>float64\<close> scores are reals: the merge
  only copies them, compares one with 1 and subtracts it from 1.
\<close>

datatype any = VNil | VString string | VFloat real | VInt int | VBool bool

text \<open>
  A Go map \<open>map[string]interface{}\<close> is an association list read with \<^const>\<open>map_of\<close> and
  written with \<^const>\<open>AList.update\<close>; a nil map is \<open>None\<close>: reading it finds no key,
  assigning to it panics.
\<close>

type_synonym metadata = "(string \<times> any) list"

record Document =
  ID :: string
  Content :: string
  MetaData :: "metadata option"

definition meta_get :: "Document \<Rightarrow> string \<Rightarrow> any option" where
  "meta_get doc k = (case MetaData doc of None \<Rightarrow> None | Some md \<Rightarrow> map_of md k)"

text \<open>
  A slice value is nil or a (possibly empty) sequence. A \<open>var s []T\<close> that is only ever
  appended to is nil exactly when nothing was appended.
\<close>

datatype 'a slice = NilSlice | Slice "'a list"

fun elems :: "'a slice \<Rightarrow> 'a list" where
  "elems NilSlice = []"
| "elems (Slice xs) = xs"

definition appended :: "'a list \<Rightarrow> 'a slice" where
  "appended xs = (if xs = [] then NilSlice else Slice xs)"

datatype panic = IndexOutOfRange | SliceBoundsOutOfRange | NilMapAssignment | NilDereference

text \<open>A Go \<open>error\<close> value is its message; \<open>None\<close> is the nil error.\<close>

type_synonym error = string

text \<open>What a call \<open>(docs, err)\<close> of a retrieval method yields, unless it panics.\<close>

type_synonym search_result = "panic + (Document slice \<times> error option)"

text \<open>
  A \<open>for\<close> loop over a state, where the body may panic: \<open>for i := 0; i < n; i++\<close> runs
  over \<open>[0..<n]\<close>, \<open>for _, x := range xs\<close> over \<open>xs\<close>.
\<close>

fun for_loop :: "'i list \<Rightarrow> ('i \<Rightarrow> 's \<Rightarrow> panic + 's) \<Rightarrow> 's \<Rightarrow> panic + 's" where
  "for_loop [] body st = Inr st"
| "for_loop (i # js) body st =
     (case body i st of Inl p \<Rightarrow> Inl p | Inr st' \<Rightarrow> for_loop js body st')"

text \<open>\<open>s[:k]\<close> for a slice that holds more than \<open>k\<close> items: a negative bound panics.\<close>

definition truncate_to :: "Document list \<Rightarrow> int \<Rightarrow> panic + Document slice" where
  "truncate_to docs topK =
     (if int (length docs) > topK
        then (if topK < 0 then Inl SliceBoundsOutOfRange else Inr (Slice (take (nat topK) docs)))
      else Inr (appended docs))"

text \<open>Decimal and lower-case hexadecimal digits, as \<open>%d\<close> and \<open>%x\<close> print a natural.\<close>

definition digit_char :: "nat \<Rightarrow> char" where
  "digit_char d = (if d < 16 then ''0123456789abcdef'' ! d else CHR ''?'')"

function show_base :: "nat \<Rightarrow> nat \<Rightarrow> string" where
  "show_base b n =
     (if n < b \<or> b < 2 then [digit_char n]
      else show_base b (n div b) @ [digit_char (n mod b)])"
  by pat_completeness auto
termination
  by (relation "measure snd") auto

declare show_base.simps [simp del]

definition show_dec :: "nat \<Rightarrow> string" where
  "show_dec n = show_base 10 n"

definition show_hex :: "nat \<Rightarrow> string" where
  "show_hex n = show_base 16 n"

section \<open>HybridSearch: the round-robin merge (hybrid\_retrieval.go)\<close>

text \<open>
  The state of the merge loop: the keys of \<open>seenDocIDs\<close> and \<open>mergedDocs\<close>.
  \<open>sprintv\<close> is \<open>fmt.Sprintf("%v", x)\<close> of the standard library.
\<close>

type_synonym merge_state = "string list \<times> Document list"

definition dual_docID :: "(any \<Rightarrow> string) \<Rightarrow> nat \<Rightarrow> Document \<Rightarrow> string" where
  "dual_docID sprintv i doc =
     (case meta_get doc ''node_id'' of
        Some nodeID \<Rightarrow> sprintv nodeID
      | None \<Rightarrow> ''dual_'' @ show_dec i)"

definition vector_docID :: "(any \<Rightarrow> string) \<Rightarrow> nat \<Rightarrow> Document \<Rightarrow> string" where
  "vector_docID sprintv i doc =
     (case meta_get doc ''node_id'' of
        Some nodeID \<Rightarrow> sprintv nodeID
      | None \<Rightarrow> ''vector_'' @ show_dec i)"

definition dual_final_score :: "metadata \<Rightarrow> any" where
  "dual_final_score md =
     (case map_of md ''relevance_score'' of Some score \<Rightarrow> score | None \<Rightarrow> VFloat 0)"

definition vector_final_score :: "metadata \<Rightarrow> any" where
  "vector_final_score md =
     (case map_of md ''score'' of
        Some score \<Rightarrow>
          (case score of
             VFloat scoreFloat \<Rightarrow>
               (let similarityScore =
                      (if scoreFloat \<le> 1
                         then (let sim = 1 - scoreFloat in if sim < 0 then 0 else sim)
                       else 0)
                in VFloat similarityScore)
           | _ \<Rightarrow> VFloat 0)
      | None \<Rightarrow> VFloat 0)"

definition emit_dual :: "nat \<Rightarrow> metadata \<Rightarrow> metadata" where
  "emit_dual order md =
     (let md1 = AList.update ''search_method'' (VString ''dual_level'') md;
          md2 = AList.update ''round_robin_order'' (VInt (int order)) md1
      in AList.update ''final_score'' (dual_final_score md2) md2)"

definition emit_vector :: "nat \<Rightarrow> metadata \<Rightarrow> metadata" where
  "emit_vector order md =
     (let md1 = AList.update ''search_method'' (VString ''vector_enhanced'') md;
          md2 = AList.update ''round_robin_order'' (VInt (int order)) md1
      in AList.update ''final_score'' (vector_final_score md2) md2)"

definition add_doc :: "string \<Rightarrow> (nat \<Rightarrow> metadata \<Rightarrow> metadata) \<Rightarrow> Document \<Rightarrow> merge_state
    \<Rightarrow> panic + merge_state" where
  "add_doc docID emit doc st =
     (case st of (seenDocIDs, mergedDocs) \<Rightarrow>
        if docID \<in> set seenDocIDs then Inr st
        else (case MetaData doc of
                None \<Rightarrow> Inl NilMapAssignment
              | Some md \<Rightarrow>
                  Inr (docID # seenDocIDs,
                       mergedDocs @ [doc\<lparr>MetaData := Some (emit (length mergedDocs) md)\<rparr>])))"

definition hybrid_step :: "(any \<Rightarrow> string) \<Rightarrow> Document list \<Rightarrow> Document list \<Rightarrow> nat
    \<Rightarrow> merge_state \<Rightarrow> panic + merge_state" where
  "hybrid_step sprintv dualDocs vectorDocs i st =
     (case (if i < length dualDocs
              then add_doc (dual_docID sprintv i (dualDocs ! i)) emit_dual (dualDocs ! i) st
            else Inr st) of
        Inl p \<Rightarrow> Inl p
      | Inr st1 \<Rightarrow>
          if i < length vectorDocs
            then add_doc (vector_docID sprintv i (vectorDocs ! i)) emit_vector (vectorDocs ! i) st1
          else Inr st1)"

text \<open>A failed retrieval is replaced by the empty list \<open>[]*schema.Document{}\<close>.\<close>

definition docs_or_empty :: "Document slice \<times> error option \<Rightarrow> Document list" where
  "docs_or_empty r = (case snd r of Some e \<Rightarrow> [] | None \<Rightarrow> elems (fst r))"

definition hybrid_merge :: "(any \<Rightarrow> string) \<Rightarrow> Document list \<Rightarrow> Document list \<Rightarrow> int
    \<Rightarrow> panic + Document slice" where
  "hybrid_merge sprintv dualDocs vectorDocs topK =
     (let maxLen = (if length vectorDocs > length dualDocs
                      then length vectorDocs else length dualDocs)
      in case for_loop [0..<maxLen] (hybrid_step sprintv dualDocs vectorDocs) ([], []) of
           Inl p \<Rightarrow> Inl p
         | Inr (seenDocIDs, mergedDocs) \<Rightarrow> truncate_to mergedDocs topK)"

text \<open>
  \<open>HybridSearch\<close>, given what its calls of \<open>DualLevelRetrieval\<close> and
  \<open>VectorSearchEnhanced\<close> yield (in this order; a panic of either ends the call).
\<close>

definition HybridSearch :: "(any \<Rightarrow> string) \<Rightarrow> search_result \<Rightarrow> search_result \<Rightarrow> int
    \<Rightarrow> search_result" where
  "HybridSearch sprintv dualRes vectorRes topK =
     (case dualRes of
        Inl p \<Rightarrow> Inl p
      | Inr dr \<Rightarrow>
          (case vectorRes of
             Inl p \<Rightarrow> Inl p
           | Inr vr \<Rightarrow>
               (case hybrid_merge sprintv (docs_or_empty dr) (docs_or_empty vr) topK of
                  Inl p \<Rightarrow> Inl p
                | Inr finalDocs \<Rightarrow> Inr (finalDocs, None))))"

section \<open>Graph query understanding and GraphRAGSearch (graph\_reterval.go)\<close>

text \<open>\<open>QueryType\<close> is a Go string type with five named constants.\<close>

type_synonym QueryType = string

definition EntityRelation :: QueryType where
  "EntityRelation = ''entity_relation''"

definition MultiHop :: QueryType where
  "MultiHop = ''multi_hop''"

definition Subgraph :: QueryType where
  "Subgraph = ''subgraph''"

definition PathFinding :: QueryType where
  "PathFinding = ''path_finding''"

definition Clustering :: QueryType where
  "Clustering = ''clustering''"

text \<open>
  \<open>GraphQuery\<close> (its \<open>Constraints\<close> map is never set by this code) and the structure the
  LLM's JSON answer is decoded into. \<open>MaxDepth\<close> and \<open>MaxNodes\<close> are Go \<open>int\<close>s on which no
  arithmetic is done.
\<close>

record GraphQuery =
  gq_QueryType :: QueryType
  SourceEntities :: "string list"
  TargetEntities :: "string list"
  RelationTypes :: "string list"
  MaxDepth :: int
  MaxNodes :: int

record QueryAnalysisResult =
  qa_QueryType :: string
  qa_SourceEntities :: "string list"
  qa_TargetEntities :: "string list"
  qa_RelationTypes :: "string list"
  qa_MaxDepth :: int
  qa_Reasoning :: string

text \<open>
  The prompt of \<open>UnderstandGraphQuery\<close> is built with \<open>schema.FString\<close>: the content of each
  message is a format string in the style of Python's \<open>str.format\<close>. Text is copied to the
  output; \<open>{{\<close> and \<open>}}\<close> stand for one brace; \<open>{field}\<close> is a replacement field, whose name
  (the field up to a \<open>!\<close> or \<open>:\<close>) is looked up in the variables. A closing brace on its own,
  a field that is not closed and a name that is no variable are errors. Conversions and
  format specifications are not modelled: the only field of the prompt that names a
  variable is \<open>{query}\<close>.
\<close>

datatype format_error = SingleClosingBrace | SingleOpeningBrace | KeyError string

definition field_name :: "string \<Rightarrow> string" where
  "field_name field = takeWhile (\<lambda>c. c \<noteq> CHR ''!'' \<and> c \<noteq> CHR '':'') field"

text \<open>
  The scan, with the output written so far and the replacement field being read, if any.
\<close>

fun FString_scan :: "(string \<times> string) list \<Rightarrow> string \<Rightarrow> string option \<Rightarrow> string
    \<Rightarrow> format_error + string" where
  "FString_scan vs buf None [] = Inr buf"
| "FString_scan vs buf (Some field) [] = Inl SingleOpeningBrace"
| "FString_scan vs buf None (c # cs) =
     (if c = CHR ''{'' then
        (case cs of
           [] \<Rightarrow> Inl SingleOpeningBrace
         | d # rest \<Rightarrow>
             if d = CHR ''{'' then FString_scan vs (buf @ [c]) None rest
             else FString_scan vs buf (Some []) cs)
      else if c = CHR ''}'' then
        (case cs of
           [] \<Rightarrow> Inl SingleClosingBrace
         | d # rest \<Rightarrow>
             if d = CHR ''}'' then FString_scan vs (buf @ [c]) None rest
             else Inl SingleClosingBrace)
      else FString_scan vs (buf @ [c]) None cs)"
| "FString_scan vs buf (Some field) (c # cs) =
     (if c = CHR ''}'' then
        (case map_of vs (field_name field) of
           None \<Rightarrow> Inl (KeyError (field_name field))
         | Some v \<Rightarrow> FString_scan vs (buf @ v) None cs)
      else FString_scan vs buf (Some (field @ [c])) cs)"

definition FString_format :: "string \<Rightarrow> (string \<times> string) list \<Rightarrow> format_error + string" where
  "FString_format content vs = FString_scan vs [] None content"

text \<open>
  The two messages of the template: the system message, and the user message, a raw
  string literal that holds the field \<open>{query}\<close> and, at its end, a JSON example in
  braces. The user message is its five parts in order: the task up to the query, the
  field, the query types, the other items with the worked example, and the JSON example
  between its braces.
\<close>

definition system_prompt :: string where
  "system_prompt =
     [CHR 0xE4, CHR 0xBD, CHR 0xA0, CHR 0xE6, CHR 0x98, CHR 0xAF, CHR 0xE4, CHR 0xB8,
      CHR 0x80, CHR 0xE4, CHR 0xB8, CHR 0xAA, CHR 0xE5, CHR 0x9B, CHR 0xBE, CHR 0xE6,
      CHR 0x95, CHR 0xB0, CHR 0xE6, CHR 0x8D, CHR 0xAE, CHR 0xE5, CHR 0xBA, CHR 0x93,
      CHR 0xE4, CHR 0xB8, CHR 0x93, CHR 0xE5, CHR 0xAE, CHR 0xB6, CHR 0xE3, CHR 0x80,
      CHR 0x82]"

definition prompt_task :: string where
  "prompt_task =
     [CHR 0xE5, CHR 0x88, CHR 0x86, CHR 0xE6, CHR 0x9E, CHR 0x90, CHR 0xE4, CHR 0xBB,
      CHR 0xA5, CHR 0xE4, CHR 0xB8, CHR 0x8B, CHR 0xE6, CHR 0x9F, CHR 0xA5, CHR 0xE8,
      CHR 0xAF, CHR 0xA2, CHR 0xE7, CHR 0x9A, CHR 0x84, CHR 0xE5, CHR 0x9B, CHR 0xBE,
      CHR 0xE7, CHR 0xBB, CHR 0x93, CHR 0xE6, CHR 0x9E, CHR 0x84, CHR 0xE6, CHR 0x84,
      CHR 0x8F, CHR 0xE5, CHR 0x9B, CHR 0xBE, CHR 0xEF, CHR 0xBC, CHR 0x9A, CHR 0x0A,
      CHR 0x09, CHR 0x09, CHR 0x09, CHR 0x0A, CHR 0x09, CHR 0x09, CHR 0x09, CHR 0xE6,
      CHR 0x9F, CHR 0xA5, CHR 0xE8, CHR 0xAF, CHR 0xA2, CHR 0xEF, CHR 0xBC, CHR 0x9A]"

definition prompt_query_types :: string where
  "prompt_query_types =
     [CHR 0x0A, CHR 0x09, CHR 0x09, CHR 0x09, CHR 0x0A, CHR 0x09, CHR 0x09, CHR 0x09,
      CHR 0xE8, CHR 0xAF, CHR 0xB7, CHR 0xE8, CHR 0xAF, CHR 0x86, CHR 0xE5, CHR 0x88,
      CHR 0xAB, CHR 0xEF, CHR 0xBC, CHR 0x9A, CHR 0x0A, CHR 0x09, CHR 0x09, CHR 0x09]
      @ ''1. '' @ [CHR 0xE6, CHR 0x9F, CHR 0xA5, CHR 0xE8, CHR 0xAF, CHR 0xA2, CHR 0xE7,
      CHR 0xB1, CHR 0xBB, CHR 0xE5, CHR 0x9E, CHR 0x8B, CHR 0xEF, CHR 0xBC, CHR 0x9A,
      CHR 0x0A, CHR 0x09, CHR 0x09, CHR 0x09] @ ''   - entity_relation: '' @ [CHR 0xE8,
      CHR 0xAF, CHR 0xA2, CHR 0xE9, CHR 0x97, CHR 0xAE, CHR 0xE5, CHR 0xAE, CHR 0x9E,
      CHR 0xE4, CHR 0xBD, CHR 0x93, CHR 0xE9, CHR 0x97, CHR 0xB4, CHR 0xE7, CHR 0x9A,
      CHR 0x84, CHR 0xE7, CHR 0x9B, CHR 0xB4, CHR 0xE6, CHR 0x8E, CHR 0xA5, CHR 0xE5,
      CHR 0x85, CHR 0xB3, CHR 0xE7, CHR 0xB3, CHR 0xBB, CHR 0xEF, CHR 0xBC, CHR 0x88,
      CHR 0xE5, CHR 0xA6, CHR 0x82, CHR 0xEF, CHR 0xBC, CHR 0x9A, CHR 0xE9, CHR 0xB8,
      CHR 0xA1, CHR 0xE8, CHR 0x82, CHR 0x89, CHR 0xE5, CHR 0x92, CHR 0x8C, CHR 0xE8,
      CHR 0x83, CHR 0xA1, CHR 0xE8, CHR 0x90, CHR 0x9D, CHR 0xE5, CHR 0x8D, CHR 0x9C,
      CHR 0xE8, CHR 0x83, CHR 0xBD, CHR 0xE4, CHR 0xB8, CHR 0x80, CHR 0xE8, CHR 0xB5,
      CHR 0xB7, CHR 0xE5, CHR 0x81, CHR 0x9A, CHR 0xE8, CHR 0x8F, CHR 0x9C, CHR 0xE5,
      CHR 0x90, CHR 0x97, CHR 0xEF, CHR 0xBC, CHR 0x9F, CHR 0xEF, CHR 0xBC, CHR 0x89,
      CHR 0x0A, CHR 0x09, CHR 0x09, CHR 0x09] @ ''   - multi_hop: '' @ [CHR 0xE9,
      CHR 0x9C, CHR 0x80, CHR 0xE8, CHR 0xA6, CHR 0x81, CHR 0xE5, CHR 0xA4, CHR 0x9A,
      CHR 0xE8, CHR 0xB7, CHR 0xB3, CHR 0xE6, CHR 0x8E, CHR 0xA8, CHR 0xE7, CHR 0x90,
      CHR 0x86, CHR 0xEF, CHR 0xBC, CHR 0x88, CHR 0xE5, CHR 0xA6, CHR 0x82, CHR 0xEF,
      CHR 0xBC, CHR 0x9A, CHR 0xE9, CHR 0xB8, CHR 0xA1, CHR 0xE8, CHR 0x82, CHR 0x89,
      CHR 0xE9, CHR 0x85, CHR 0x8D, CHR 0xE4, CHR 0xBB, CHR 0x80, CHR 0xE4, CHR 0xB9,
      CHR 0x88, CHR 0xE8, CHR 0x94, CHR 0xAC, CHR 0xE8, CHR 0x8F, CHR 0x9C, CHR 0xEF,
      CHR 0xBC, CHR 0x9F, CHR 0xE9, CHR 0x9C, CHR 0x80, CHR 0xE8, CHR 0xA6, CHR 0x81,
      CHR 0xEF, CHR 0xBC, CHR 0x9A, CHR 0xE9, CHR 0xB8, CHR 0xA1, CHR 0xE8, CHR 0x82,
      CHR 0x89, CHR 0xE2, CHR 0x86, CHR 0x92, CHR 0xE8, CHR 0x8F, CHR 0x9C, CHR 0xE5,
      CHR 0x93, CHR 0x81, CHR 0xE2, CHR 0x86, CHR 0x92, CHR 0xE9, CHR 0xA3, CHR 0x9F,
      CHR 0xE6, CHR 0x9D, CHR 0x90, CHR 0xE2, CHR 0x86, CHR 0x92, CHR 0xE8, CHR 0x94,
      CHR 0xAC, CHR 0xE8, CHR 0x8F, CHR 0x9C, CHR 0xEF, CHR 0xBC, CHR 0x89, CHR 0x0A,
      CHR 0x09, CHR 0x09, CHR 0x09] @ ''   - subgraph: '' @ [CHR 0xE9, CHR 0x9C, CHR 0x80,
      CHR 0xE8, CHR 0xA6, CHR 0x81, CHR 0xE5, CHR 0xAE, CHR 0x8C, CHR 0xE6, CHR 0x95,
      CHR 0xB4, CHR 0xE5, CHR 0xAD, CHR 0x90, CHR 0xE5, CHR 0x9B, CHR 0xBE, CHR 0xEF,
      CHR 0xBC, CHR 0x88, CHR 0xE5, CHR 0xA6, CHR 0x82, CHR 0xEF, CHR 0xBC, CHR 0x9A,
      CHR 0xE5, CHR 0xB7, CHR 0x9D, CHR 0xE8, CHR 0x8F, CHR 0x9C, CHR 0xE6, CHR 0x9C,
      CHR 0x89, CHR 0xE4, CHR 0xBB, CHR 0x80, CHR 0xE4, CHR 0xB9, CHR 0x88, CHR 0xE7,
      CHR 0x89, CHR 0xB9, CHR 0xE8, CHR 0x89, CHR 0xB2, CHR 0xEF, CHR 0xBC, CHR 0x9F,
      CHR 0xE9, CHR 0x9C, CHR 0x80, CHR 0xE8, CHR 0xA6, CHR 0x81, CHR 0xE5, CHR 0xB7,
      CHR 0x9D, CHR 0xE8, CHR 0x8F, CHR 0x9C, CHR 0xE7, CHR 0x9B, CHR 0xB8, CHR 0xE5,
      CHR 0x85, CHR 0xB3, CHR 0xE7, CHR 0x9A, CHR 0x84, CHR 0xE5, CHR 0xAE, CHR 0x8C,
      CHR 0xE6, CHR 0x95, CHR 0xB4, CHR 0xE7, CHR 0x9F, CHR 0xA5, CHR 0xE8, CHR 0xAF,
      CHR 0x86, CHR 0xE7, CHR 0xBD, CHR 0x91, CHR 0xE7, CHR 0xBB, CHR 0x9C, CHR 0xEF,
      CHR 0xBC, CHR 0x89, CHR 0x0A, CHR 0x09, CHR 0x09, CHR 0x09]
      @ ''   - path_finding: '' @ [CHR 0xE8, CHR 0xB7, CHR 0xAF, CHR 0xE5, CHR 0xBE,
      CHR 0x84, CHR 0xE6, CHR 0x9F, CHR 0xA5, CHR 0xE6, CHR 0x89, CHR 0xBE, CHR 0xEF,
      CHR 0xBC, CHR 0x88, CHR 0xE5, CHR 0xA6, CHR 0x82, CHR 0xEF, CHR 0xBC, CHR 0x9A,
      CHR 0xE4, CHR 0xBB, CHR 0x8E, CHR 0xE9, CHR 0xA3, CHR 0x9F, CHR 0xE6, CHR 0x9D,
      CHR 0x90, CHR 0xE5, CHR 0x88, CHR 0xB0, CHR 0xE6, CHR 0x88, CHR 0x90, CHR 0xE5,
      CHR 0x93, CHR 0x81, CHR 0xE8, CHR 0x8F, CHR 0x9C, CHR 0xE7, CHR 0x9A, CHR 0x84,
      CHR 0xE5, CHR 0x88, CHR 0xB6, CHR 0xE4, CHR 0xBD, CHR 0x9C, CHR 0xE8, CHR 0xB7,
      CHR 0xAF, CHR 0xE5, CHR 0xBE, CHR 0x84, CHR 0xEF, CHR 0xBC, CHR 0x89, CHR 0x0A,
      CHR 0x09, CHR 0x09, CHR 0x09] @ ''   - clustering: '' @ [CHR 0xE8, CHR 0x81,
      CHR 0x9A, CHR 0xE7, CHR 0xB1, CHR 0xBB, CHR 0xE7, CHR 0x9B, CHR 0xB8, CHR 0xE4,
      CHR 0xBC, CHR 0xBC, CHR 0xE6, CHR 0x80, CHR 0xA7, CHR 0xEF, CHR 0xBC, CHR 0x88,
      CHR 0xE5, CHR 0xA6, CHR 0x82, CHR 0xEF, CHR 0xBC, CHR 0x9A, CHR 0xE5, CHR 0x92,
      CHR 0x8C, CHR 0xE5, CHR 0xAE, CHR 0xAB, CHR 0xE4, CHR 0xBF, CHR 0x9D, CHR 0xE9,
      CHR 0xB8, CHR 0xA1, CHR 0xE4, CHR 0xB8, CHR 0x81, CHR 0xE7, CHR 0xB1, CHR 0xBB,
      CHR 0xE4, CHR 0xBC, CHR 0xBC, CHR 0xE7, CHR 0x9A, CHR 0x84, CHR 0xE8, CHR 0x8F,
      CHR 0x9C, CHR 0xE6, CHR 0x9C, CHR 0x89, CHR 0xE5, CHR 0x93, CHR 0xAA, CHR 0xE4,
      CHR 0xBA, CHR 0x9B, CHR 0xEF, CHR 0xBC, CHR 0x9F, CHR 0xEF, CHR 0xBC, CHR 0x89,
      CHR 0x0A, CHR 0x09, CHR 0x09, CHR 0x09, CHR 0x0A]"

definition prompt_items_and_example :: string where
  "prompt_items_and_example =
     [CHR 0x09, CHR 0x09, CHR 0x09] @ ''2. '' @ [CHR 0xE6, CHR 0xA0, CHR 0xB8, CHR 0xE5,
      CHR 0xBF, CHR 0x83, CHR 0xE5, CHR 0xAE, CHR 0x9E, CHR 0xE4, CHR 0xBD, CHR 0x93,
      CHR 0xEF, CHR 0xBC, CHR 0x9A, CHR 0xE6, CHR 0x9F, CHR 0xA5, CHR 0xE8, CHR 0xAF,
      CHR 0xA2, CHR 0xE4, CHR 0xB8, CHR 0xAD, CHR 0xE7, CHR 0x9A, CHR 0x84, CHR 0xE5,
      CHR 0x85, CHR 0xB3, CHR 0xE9, CHR 0x94, CHR 0xAE, CHR 0xE5, CHR 0xAE, CHR 0x9E,
      CHR 0xE4, CHR 0xBD, CHR 0x93, CHR 0xE5, CHR 0x90, CHR 0x8D, CHR 0xE7, CHR 0xA7,
      CHR 0xB0, CHR 0x0A, CHR 0x09, CHR 0x09, CHR 0x09] @ ''3. '' @ [CHR 0xE7, CHR 0x9B,
      CHR 0xAE, CHR 0xE6, CHR 0xA0, CHR 0x87, CHR 0xE5, CHR 0xAE, CHR 0x9E, CHR 0xE4,
      CHR 0xBD, CHR 0x93, CHR 0xEF, CHR 0xBC, CHR 0x9A, CHR 0xE6, CHR 0x9C, CHR 0x9F,
      CHR 0xE6, CHR 0x9C, CHR 0x9B, CHR 0xE6, CHR 0x89, CHR 0xBE, CHR 0xE5, CHR 0x88,
      CHR 0xB0, CHR 0xE7, CHR 0x9A, CHR 0x84, CHR 0xE5, CHR 0xAE, CHR 0x9E, CHR 0xE4,
      CHR 0xBD, CHR 0x93, CHR 0xE7, CHR 0xB1, CHR 0xBB, CHR 0xE5, CHR 0x9E, CHR 0x8B,
      CHR 0x0A, CHR 0x09, CHR 0x09, CHR 0x09] @ ''4. '' @ [CHR 0xE5, CHR 0x85, CHR 0xB3,
      CHR 0xE7, CHR 0xB3, CHR 0xBB, CHR 0xE7, CHR 0xB1, CHR 0xBB, CHR 0xE5, CHR 0x9E,
      CHR 0x8B, CHR 0xEF, CHR 0xBC, CHR 0x9A, CHR 0xE6, CHR 0xB6, CHR 0x89, CHR 0xE5,
      CHR 0x8F, CHR 0x8A, CHR 0xE7, CHR 0x9A, CHR 0x84, CHR 0xE5, CHR 0x85, CHR 0xB3,
      CHR 0xE7, CHR 0xB3, CHR 0xBB, CHR 0xE7, CHR 0xB1, CHR 0xBB, CHR 0xE5, CHR 0x9E,
      CHR 0x8B, CHR 0x0A, CHR 0x09, CHR 0x09, CHR 0x09] @ ''5. '' @ [CHR 0xE9, CHR 0x81,
      CHR 0x8D, CHR 0xE5, CHR 0x8E, CHR 0x86, CHR 0xE6, CHR 0xB7, CHR 0xB1, CHR 0xE5,
      CHR 0xBA, CHR 0xA6, CHR 0xEF, CHR 0xBC, CHR 0x9A, CHR 0xE9, CHR 0x9C, CHR 0x80,
      CHR 0xE8, CHR 0xA6, CHR 0x81, CHR 0xE7, CHR 0x9A, CHR 0x84, CHR 0xE5, CHR 0x9B,
      CHR 0xBE, CHR 0xE9, CHR 0x81, CHR 0x8D, CHR 0xE5, CHR 0x8E, CHR 0x86, CHR 0xE6,
      CHR 0xB7, CHR 0xB1, CHR 0xE5, CHR 0xBA, CHR 0xA6, CHR 0xEF, CHR 0xBC, CHR 0x88]
      @ ''1-3'' @ [CHR 0xE8, CHR 0xB7, CHR 0xB3, CHR 0xEF, CHR 0xBC, CHR 0x89, CHR 0x0A,
      CHR 0x09, CHR 0x09, CHR 0x09, CHR 0x0A, CHR 0x09, CHR 0x09, CHR 0x09, CHR 0xE7,
      CHR 0xA4, CHR 0xBA, CHR 0xE4, CHR 0xBE, CHR 0x8B, CHR 0xEF, CHR 0xBC, CHR 0x9A,
      CHR 0x0A, CHR 0x09, CHR 0x09, CHR 0x09, CHR 0xE6, CHR 0x9F, CHR 0xA5, CHR 0xE8,
      CHR 0xAF, CHR 0xA2, CHR 0xEF, CHR 0xBC, CHR 0x9A, CHR 0x22, CHR 0xE9, CHR 0xB8,
      CHR 0xA1, CHR 0xE8, CHR 0x82, CHR 0x89, CHR 0xE9, CHR 0x85, CHR 0x8D, CHR 0xE4,
      CHR 0xBB, CHR 0x80, CHR 0xE4, CHR 0xB9, CHR 0x88, CHR 0xE8, CHR 0x94, CHR 0xAC,
      CHR 0xE8, CHR 0x8F, CHR 0x9C, CHR 0xE5, CHR 0xA5, CHR 0xBD, CHR 0xEF, CHR 0xBC,
      CHR 0x9F, CHR 0x22, CHR 0x0A, CHR 0x09, CHR 0x09, CHR 0x09, CHR 0xE5, CHR 0x88,
      CHR 0x86, CHR 0xE6, CHR 0x9E, CHR 0x90, CHR 0xEF, CHR 0xBC, CHR 0x9A, CHR 0xE8,
      CHR 0xBF, CHR 0x99, CHR 0xE6, CHR 0x98, CHR 0xAF] @ ''multi_hop'' @ [CHR 0xE6,
      CHR 0x9F, CHR 0xA5, CHR 0xE8, CHR 0xAF, CHR 0xA2, CHR 0xEF, CHR 0xBC, CHR 0x8C,
      CHR 0xE9, CHR 0x9C, CHR 0x80, CHR 0xE8, CHR 0xA6, CHR 0x81, CHR 0xE9, CHR 0x80,
      CHR 0x9A, CHR 0xE8, CHR 0xBF, CHR 0x87, CHR 0x22, CHR 0xE9, CHR 0xB8, CHR 0xA1,
      CHR 0xE8, CHR 0x82, CHR 0x89, CHR 0xE2, CHR 0x86, CHR 0x92, CHR 0xE4, CHR 0xBD,
      CHR 0xBF, CHR 0xE7, CHR 0x94, CHR 0xA8, CHR 0xE9, CHR 0xB8, CHR 0xA1, CHR 0xE8,
      CHR 0x82, CHR 0x89, CHR 0xE7, CHR 0x9A, CHR 0x84, CHR 0xE8, CHR 0x8F, CHR 0x9C,
      CHR 0xE5, CHR 0x93, CHR 0x81, CHR 0xE2, CHR 0x86, CHR 0x92, CHR 0xE8, CHR 0xBF,
      CHR 0x99, CHR 0xE4, CHR 0xBA, CHR 0x9B, CHR 0xE8, CHR 0x8F, CHR 0x9C, CHR 0xE5,
      CHR 0x93, CHR 0x81, CHR 0xE4, CHR 0xBD, CHR 0xBF, CHR 0xE7, CHR 0x94, CHR 0xA8,
      CHR 0xE7, CHR 0x9A, CHR 0x84, CHR 0xE8, CHR 0x94, CHR 0xAC, CHR 0xE8, CHR 0x8F,
      CHR 0x9C, CHR 0x22, CHR 0xE7, CHR 0x9A, CHR 0x84, CHR 0xE8, CHR 0xB7, CHR 0xAF,
      CHR 0xE5, CHR 0xBE, CHR 0x84, CHR 0xE6, CHR 0x8E, CHR 0xA8, CHR 0xE7, CHR 0x90,
      CHR 0x86, CHR 0x0A, CHR 0x09, CHR 0x09, CHR 0x09, CHR 0x0A, CHR 0x09, CHR 0x09,
      CHR 0x09, CHR 0xE8, CHR 0xBF, CHR 0x94, CHR 0xE5, CHR 0x9B, CHR 0x9E] @ ''JSON''
      @ [CHR 0xE6, CHR 0xA0, CHR 0xBC, CHR 0xE5, CHR 0xBC, CHR 0x8F, CHR 0xEF, CHR 0xBC,
      CHR 0x9A, CHR 0x0A, CHR 0x09, CHR 0x09, CHR 0x09]"

definition prompt_json_example :: string where
  "prompt_json_example =
     [CHR 0x0A, CHR 0x09, CHR 0x09, CHR 0x09, CHR 0x09, CHR 0x22] @ ''query_type''
      @ [CHR 0x22, CHR 0x3A, CHR 0x20, CHR 0x22] @ ''multi_hop'' @ [CHR 0x22, CHR 0x2C,
      CHR 0x0A, CHR 0x09, CHR 0x09, CHR 0x09, CHR 0x09, CHR 0x22] @ ''source_entities''
      @ [CHR 0x22] @ '': ['' @ [CHR 0x22, CHR 0xE9, CHR 0xB8, CHR 0xA1, CHR 0xE8,
      CHR 0x82, CHR 0x89, CHR 0x22, CHR 0x5D, CHR 0x2C, CHR 0x0A, CHR 0x09, CHR 0x09,
      CHR 0x09, CHR 0x09, CHR 0x22] @ ''target_entities'' @ [CHR 0x22] @ '': [''
      @ [CHR 0x22, CHR 0xE8, CHR 0x94, CHR 0xAC, CHR 0xE8, CHR 0x8F, CHR 0x9C, CHR 0xE7,
      CHR 0xB1, CHR 0xBB, CHR 0xE9, CHR 0xA3, CHR 0x9F, CHR 0xE6, CHR 0x9D, CHR 0x90,
      CHR 0x22, CHR 0x5D, CHR 0x2C, CHR 0x0A, CHR 0x09, CHR 0x09, CHR 0x09, CHR 0x09,
      CHR 0x22] @ ''relation_types'' @ [CHR 0x22] @ '': ['' @ [CHR 0x22] @ ''REQUIRES''
      @ [CHR 0x22, CHR 0x2C, CHR 0x20, CHR 0x22] @ ''BELONGS_TO_CATEGORY'' @ [CHR 0x22,
      CHR 0x5D, CHR 0x2C, CHR 0x0A, CHR 0x09, CHR 0x09, CHR 0x09, CHR 0x09, CHR 0x22]
      @ ''max_depth'' @ [CHR 0x22] @ '': 3,'' @ [CHR 0x0A, CHR 0x09, CHR 0x09, CHR 0x09,
      CHR 0x09, CHR 0x22] @ ''reasoning'' @ [CHR 0x22, CHR 0x3A, CHR 0x20, CHR 0x22,
      CHR 0xE9, CHR 0x9C, CHR 0x80, CHR 0xE8, CHR 0xA6, CHR 0x81, CHR 0xE5, CHR 0xA4,
      CHR 0x9A, CHR 0xE8, CHR 0xB7, CHR 0xB3, CHR 0xE6, CHR 0x8E, CHR 0xA8, CHR 0xE7,
      CHR 0x90, CHR 0x86, CHR 0xEF, CHR 0xBC, CHR 0x9A, CHR 0xE9, CHR 0xB8, CHR 0xA1,
      CHR 0xE8, CHR 0x82, CHR 0x89, CHR 0xE2, CHR 0x86, CHR 0x92, CHR 0xE8, CHR 0x8F,
      CHR 0x9C, CHR 0xE5, CHR 0x93, CHR 0x81, CHR 0xE2, CHR 0x86, CHR 0x92, CHR 0xE9,
      CHR 0xA3, CHR 0x9F, CHR 0xE6, CHR 0x9D, CHR 0x90, CHR 0xE2, CHR 0x86, CHR 0x92,
      CHR 0xE8, CHR 0x94, CHR 0xAC, CHR 0xE8, CHR 0x8F, CHR 0x9C, CHR 0x22, CHR 0x0A,
      CHR 0x09, CHR 0x09, CHR 0x09]"

definition user_prompt :: string where
  "user_prompt =
     prompt_task @ ''{query}'' @ prompt_query_types @ prompt_items_and_example
      @ ''{'' @ prompt_json_example @ ''}''"

text \<open>
  \<open>template.Format\<close> with the variables \<open>{"query": query}\<close>: the messages in order, or the
  error of the first content that does not format. The text of that error belongs to the
  formatting library; \<open>describe\<close> gives it.
\<close>

definition template_Format :: "(format_error \<Rightarrow> error) \<Rightarrow> string \<Rightarrow> error + string list" where
  "template_Format describe query =
     (let values = [(''query'', query)]
      in case FString_format system_prompt values of
           Inl e \<Rightarrow> Inl (describe e)
         | Inr system \<Rightarrow>
             (case FString_format user_prompt values of
                Inl e \<Rightarrow> Inl (describe e)
              | Inr user \<Rightarrow> Inr [system, user]))"

text \<open>
  The collaborators of \<open>UnderstandGraphQuery\<close>: the text of a formatting error, the LLM
  client's \<open>Generate\<close> on the formatted messages (its answer's \<open>Content\<close>), and
  \<open>json.Unmarshal\<close> into a \<open>QueryAnalysisResult\<close>.
\<close>

record llm_env =
  format_Error :: "format_error \<Rightarrow> error"
  llm_Generate :: "string list \<Rightarrow> error + string"
  json_Unmarshal :: "string \<Rightarrow> error + QueryAnalysisResult"

definition default_plan :: "string \<Rightarrow> GraphQuery" where
  "default_plan query =
     \<lparr>gq_QueryType = Subgraph, SourceEntities = [query], TargetEntities = [],
      RelationTypes = [], MaxDepth = 2, MaxNodes = 50\<rparr>"

text \<open>The prefixes \<open>fmt.Errorf\<close> puts before a wrapped error.\<close>

definition template_failed :: string where
  "template_failed =
     [CHR 0xE6, CHR 0xA8, CHR 0xA1, CHR 0xE6, CHR 0x9D, CHR 0xBF, CHR 0xE6, CHR 0xA0,
      CHR 0xBC, CHR 0xE5, CHR 0xBC, CHR 0x8F, CHR 0xE5, CHR 0x8C, CHR 0x96, CHR 0xE5,
      CHR 0xA4, CHR 0xB1, CHR 0xE8, CHR 0xB4, CHR 0xA5, CHR 0x3A, CHR 0x20]"

definition intent_failed :: string where
  "intent_failed =
     [CHR 0xE6, CHR 0x9F, CHR 0xA5, CHR 0xE8, CHR 0xAF, CHR 0xA2, CHR 0xE6, CHR 0x84,
      CHR 0x8F, CHR 0xE5, CHR 0x9B, CHR 0xBE, CHR 0xE7, CHR 0x90, CHR 0x86, CHR 0xE8,
      CHR 0xA7, CHR 0xA3, CHR 0xE5, CHR 0xA4, CHR 0xB1, CHR 0xE8, CHR 0xB4, CHR 0xA5,
      CHR 0x3A, CHR 0x20]"

definition UnderstandGraphQuery :: "llm_env \<Rightarrow> string \<Rightarrow> error + GraphQuery" where
  "UnderstandGraphQuery env query =
     (case template_Format (format_Error env) query of
        Inl err \<Rightarrow> Inl (template_failed @ err)
      | Inr messages \<Rightarrow>
          (case llm_Generate env messages of
             Inl err \<Rightarrow> Inr (default_plan query)
           | Inr content \<Rightarrow>
               (case json_Unmarshal env content of
                  Inl err \<Rightarrow> Inr (default_plan query)
                | Inr result \<Rightarrow>
                    (let queryType =
                           (if qa_QueryType result = ''entity_relation'' then EntityRelation
                            else if qa_QueryType result = ''multi_hop'' then MultiHop
                            else if qa_QueryType result = ''subgraph'' then Subgraph
                            else if qa_QueryType result = ''path_finding'' then PathFinding
                            else if qa_QueryType result = ''clustering'' then Clustering
                            else Subgraph);
                         maxDepth = (if qa_MaxDepth result = 0 then 2 else qa_MaxDepth result)
                     in Inr \<lparr>gq_QueryType = queryType,
                             SourceEntities = qa_SourceEntities result,
                             TargetEntities = qa_TargetEntities result,
                             RelationTypes = qa_RelationTypes result,
                             MaxDepth = maxDepth,
                             MaxNodes = 50\<rparr>))))"

text \<open>
  \<open>GraphRAGSearch\<close>. The module's \<open>driver\<close> is nil or a connection; with a connection,
  steps 2 and 3 (traversal or subgraph extraction by query type, conversion to documents,
  ranking) are the graph store's answer \<open>ranked\<close> for the plan: their errors are logged and
  leave the result list as it is. The last step cuts the list to \<open>topK\<close>.
\<close>

definition GraphRAGSearch :: "(GraphQuery \<Rightarrow> string \<Rightarrow> Document slice) option \<Rightarrow> llm_env
    \<Rightarrow> string \<Rightarrow> int \<Rightarrow> search_result" where
  "GraphRAGSearch driver env query topK =
     (case driver of
        None \<Rightarrow> Inr (Slice [], None)
      | Some ranked \<Rightarrow>
          (case UnderstandGraphQuery env query of
             Inl err \<Rightarrow> Inr (NilSlice, Some (intent_failed @ err))
           | Inr graphQuery \<Rightarrow>
               (let results = ranked graphQuery query;
                    k = (if topK > int (length (elems results))
                           then int (length (elems results)) else topK)
                in if k < 0 then Inl SliceBoundsOutOfRange
                   else Inr (case results of
                               NilSlice \<Rightarrow> NilSlice
                             | Slice xs \<Rightarrow> Slice (take (nat k) xs), None))))"

section \<open>The router: combined search and RouteQuery (intelligent\_query\_router.go)\<close>

text \<open>
  The two retrieval modules the router holds. The first argument counts the retrieval
  calls the request has already made, so that a repeated call may answer differently.
\<close>

record retrievers =
  hybrid_search :: "nat \<Rightarrow> string \<Rightarrow> int \<Rightarrow> search_result"
  graph_search :: "nat \<Rightarrow> string \<Rightarrow> int \<Rightarrow> search_result"

datatype call = HybridSearchCall string int | GraphRAGSearchCall string int

text \<open>\<open>min\<close> and \<open>hashString\<close>; indexing the first byte of an empty string panics.\<close>

definition min_int :: "int \<Rightarrow> int \<Rightarrow> int" where
  "min_int a b = (if a < b then a else b)"

definition hashString :: "string \<Rightarrow> panic + string" where
  "hashString s =
     (case s of
        [] \<Rightarrow> Inl IndexOutOfRange
      | c # _ \<Rightarrow> Inr (show_hex (length s XOR of_char c)))"

definition contentHash :: "Document \<Rightarrow> panic + string" where
  "contentHash doc =
     hashString (take (nat (min_int 100 (int (length (Content doc))))) (Content doc))"

definition add_combined :: "string \<Rightarrow> Document \<Rightarrow> merge_state \<Rightarrow> panic + merge_state" where
  "add_combined source doc st =
     (case contentHash doc of
        Inl p \<Rightarrow> Inl p
      | Inr h \<Rightarrow>
          (case st of (seenContents, combinedDocs) \<Rightarrow>
             if h \<in> set seenContents then Inr st
             else
               (let md = (case MetaData doc of None \<Rightarrow> [] | Some m \<Rightarrow> m)
                in Inr (h # seenContents,
                        combinedDocs @
                          [doc\<lparr>MetaData :=
                                 Some (AList.update ''search_source'' (VString source) md)\<rparr>]))))"

definition combined_step :: "Document list \<Rightarrow> Document list \<Rightarrow> nat \<Rightarrow> merge_state
    \<Rightarrow> panic + merge_state" where
  "combined_step graphDocs traditionalDocs i st =
     (case (if i < length graphDocs then add_combined ''graph_rag'' (graphDocs ! i) st
            else Inr st) of
        Inl p \<Rightarrow> Inl p
      | Inr st1 \<Rightarrow>
          if i < length traditionalDocs
            then add_combined ''traditional'' (traditionalDocs ! i) st1
          else Inr st1)"

definition combined_merge :: "Document list \<Rightarrow> Document list \<Rightarrow> int \<Rightarrow> panic + Document slice" where
  "combined_merge graphDocs traditionalDocs topK =
     (let maxLen = (if length graphDocs > length traditionalDocs
                      then length graphDocs else length traditionalDocs)
      in case for_loop [0..<maxLen] (combined_step graphDocs traditionalDocs) ([], []) of
           Inl p \<Rightarrow> Inl p
         | Inr (seenContents, combinedDocs) \<Rightarrow> truncate_to combinedDocs topK)"

text \<open>Go's integer division truncates towards zero.\<close>

definition go_div :: "int \<Rightarrow> int \<Rightarrow> int" where
  "go_div a b = (if (a < 0) = (b < 0) then \<bar>a\<bar> div \<bar>b\<bar> else - (\<bar>a\<bar> div \<bar>b\<bar>))"

text \<open>
  \<open>executeCombinedSearch\<close>, from the count \<open>n\<close> of retrieval calls made before it: the
  calls it makes and what it returns. Its error is always nil.
\<close>

definition executeCombinedSearch :: "retrievers \<Rightarrow> nat \<Rightarrow> string \<Rightarrow> int
    \<Rightarrow> call list \<times> search_result" where
  "executeCombinedSearch r n query topK =
     (let traditionalK = (if go_div topK 2 < 1 then 1 else go_div topK 2);
          graphK = topK - traditionalK
      in case hybrid_search r n query traditionalK of
           Inl p \<Rightarrow> ([HybridSearchCall query traditionalK], Inl p)
         | Inr tr \<Rightarrow>
             (case graph_search r (n + 1) query graphK of
                Inl p \<Rightarrow>
                  ([HybridSearchCall query traditionalK, GraphRAGSearchCall query graphK], Inl p)
              | Inr gr \<Rightarrow>
                  ([HybridSearchCall query traditionalK, GraphRAGSearchCall query graphK],
                   case combined_merge (docs_or_empty gr) (docs_or_empty tr) topK of
                     Inl p \<Rightarrow> Inl p
                   | Inr combinedDocs \<Rightarrow> Inr (combinedDocs, None))))"

definition postProcess_doc :: "QueryAnalysis \<Rightarrow> Document \<Rightarrow> Document" where
  "postProcess_doc analysis doc =
     (let md = (case MetaData doc of None \<Rightarrow> [] | Some m \<Rightarrow> m);
          md1 = AList.update ''route_strategy'' (VString (RecommendedStrategy analysis)) md;
          md2 = AList.update ''query_complexity'' (VFloat (QueryComplexity analysis)) md1;
          md3 = AList.update ''route_confidence'' (VFloat (Confidence analysis)) md2
      in doc\<lparr>MetaData := Some md3\<rparr>)"

definition postProcessResults :: "Document slice \<Rightarrow> QueryAnalysis \<Rightarrow> Document slice" where
  "postProcessResults documents analysis =
     (case documents of
        NilSlice \<Rightarrow> NilSlice
      | Slice docs \<Rightarrow> Slice (map (postProcess_doc analysis) docs))"

text \<open>
  \<open>RouteQuery\<close>: the statistics after the call, the retrieval calls made in order, and
  the returned triple (documents, analysis, error) unless a retrieval call panicked.
\<close>

record route_outcome =
  stats_after :: RouteStatistics
  calls_made :: "call list"
  returned :: "panic + (Document slice \<times> QueryAnalysis \<times> error option)"

definition dispatch :: "retrievers \<Rightarrow> SearchStrategy \<Rightarrow> string \<Rightarrow> int
    \<Rightarrow> call list \<times> search_result" where
  "dispatch r strategy query topK =
     (if strategy = HybridTraditional
        then ([HybridSearchCall query topK], hybrid_search r 0 query topK)
      else if strategy = GraphRAG
        then ([GraphRAGSearchCall query topK], graph_search r 0 query topK)
      else if strategy = Combined
        then executeCombinedSearch r 0 query topK
      else ([HybridSearchCall query topK], hybrid_search r 0 query topK))"

definition RouteQuery :: "retrievers \<Rightarrow> RouteStatistics \<Rightarrow> string \<Rightarrow> int \<Rightarrow> route_outcome" where
  "RouteQuery r st query topK =
     (let analysis = (case AnalyzeQuery query of
                        (a, None) \<Rightarrow> a
                      | (a, Some err) \<Rightarrow> ruleBasedAnalysis query);
          st' = updateRouteStats (RecommendedStrategy analysis) st;
          (calls, res) = dispatch r (RecommendedStrategy analysis) query topK
      in case res of
           Inl p \<Rightarrow> \<lparr>stats_after = st', calls_made = calls, returned = Inl p\<rparr>
         | Inr (documents, None) \<Rightarrow>
             \<lparr>stats_after = st', calls_made = calls,
              returned = Inr (postProcessResults documents analysis, analysis, None)\<rparr>
         | Inr (documents, Some err) \<Rightarrow>
             (case hybrid_search r (length calls) query topK of
                Inl p \<Rightarrow>
                  \<lparr>stats_after = st', calls_made = calls @ [HybridSearchCall query topK],
                   returned = Inl p\<rparr>
              | Inr (documents', _) \<Rightarrow>
                  \<lparr>stats_after = st', calls_made = calls @ [HybridSearchCall query topK],
                   returned = Inr (postProcessResults documents' analysis, analysis, None)\<rparr>))"

text \<open>
  A sequence of routed queries on one router, threading its statistics; each request comes
  with what the retrieval modules answer at that time.
\<close>

fun route_all :: "RouteStatistics \<Rightarrow> (retrievers \<times> string \<times> int) list \<Rightarrow> RouteStatistics" where
  "route_all st [] = st"
| "route_all st ((r, query, topK) # rest) =
     route_all (stats_after (RouteQuery r st query topK)) rest"

section \<open>The keyword index (GraphIndexingModule)\<close>

record EntityKeyValue =
  EntityName :: string
  e_IndexKeys :: "string list"
  e_ValueContent :: string
  EntityType :: string

record RelationKeyValue =
  RelationID :: string
  r_IndexKeys :: "string list"
  r_ValueContent :: string
  RelationType :: string
  SourceEntity :: string
  TargetEntity :: string

text \<open>
  The two stores are Go maps from an id to a record. Go leaves the order of \<open>range\<close> over a
  map to the runtime, so a store is given as the list of its entries in the order one
  \<open>range\<close> visits them (ids distinct); another \<open>range\<close> over the same store may visit a
  permutation of it.

  \<open>m[key] = append(m[key], id)\<close>: a missing key reads as the nil slice.
\<close>

type_synonym key_index = "string \<rightharpoonup> string list"

definition append_id :: "string \<Rightarrow> string \<Rightarrow> key_index \<Rightarrow> key_index" where
  "append_id ident key m = m(key \<mapsto> (case m key of None \<Rightarrow> [] | Some ids \<Rightarrow> ids) @ [ident])"

definition index_entity :: "string \<times> EntityKeyValue \<Rightarrow> key_index \<Rightarrow> key_index" where
  "index_entity entry m =
     (case entry of (entityID, entityKV) \<Rightarrow> fold (append_id entityID) (e_IndexKeys entityKV) m)"

definition index_relation :: "string \<times> RelationKeyValue \<Rightarrow> key_index \<Rightarrow> key_index" where
  "index_relation entry m =
     (case entry of (relationID, relationKV) \<Rightarrow>
        fold (append_id relationID) (r_IndexKeys relationKV) m)"

text \<open>
  \<open>rebuildKeyMappings\<close>: both mappings are emptied and refilled by one \<open>range\<close> over each
  store; the result is (\<open>keyToEntities\<close>, \<open>keyToRelations\<close>).
\<close>

definition rebuildKeyMappings :: "(string \<times> EntityKeyValue) list
    \<Rightarrow> (string \<times> RelationKeyValue) list \<Rightarrow> key_index \<times> key_index" where
  "rebuildKeyMappings entityKVStore relationKVStore =
     (fold index_entity entityKVStore Map.empty, fold index_relation relationKVStore Map.empty)"

definition GetEntitiesByKey :: "(string \<times> EntityKeyValue) list \<Rightarrow> key_index \<Rightarrow> string
    \<Rightarrow> EntityKeyValue list" where
  "GetEntitiesByKey entityKVStore keyToEntities key =
     List.map_filter (map_of entityKVStore)
       (case keyToEntities key of None \<Rightarrow> [] | Some entityIDs \<Rightarrow> entityIDs)"

definition GetRelationsByKey :: "(string \<times> RelationKeyValue) list \<Rightarrow> key_index \<Rightarrow> string
    \<Rightarrow> RelationKeyValue list" where
  "GetRelationsByKey relationKVStore keyToRelations key =
     List.map_filter (map_of relationKVStore)
       (case keyToRelations key of None \<Rightarrow> [] | Some relationIDs \<Rightarrow> relationIDs)"

section \<open>VectorSearchEnhanced (hybrid\_retrieval.go)\<close>

record RetrievalResult =
  rr_Content :: string
  NodeID :: string
  NodeType :: string
  RelevanceScore :: real
  RetrievalLevel :: string
  rr_Metadata :: "metadata option"

text \<open>
  A slice with its capacity, for \<open>neighbors[:3]\<close>: the upper bound of a slice expression is
  checked against the capacity, not the length. \<open>append\<close> of one element to a full slice
  reallocates; the Go runtime doubles the capacity of a small slice (1, 2, 4, ...), which
  for 16-byte string headers is also what its size classes give.
\<close>

record 'a cap_slice =
  items :: "'a list"
  capacity :: nat

definition nil_slice :: "'a cap_slice" where
  "nil_slice = \<lparr>items = [], capacity = 0\<rparr>"

definition append_one :: "'a cap_slice \<Rightarrow> 'a \<Rightarrow> 'a cap_slice" where
  "append_one s x =
     (if length (items s) < capacity s then s\<lparr>items := items s @ [x]\<rparr>
      else \<lparr>items = items s @ [x],
            capacity = (if capacity s = 0 then 1 else 2 * capacity s)\<rparr>)"

text \<open>
  \<open>getNodeNeighbors\<close>. The driver is nil or a connection, which answers the neighbour
  query for a node and a limit with an error or with the records' \<open>name\<close> column (absent,
  or some value). Only names that are non-empty strings are kept.
\<close>

type_synonym neo4j_driver = "string \<Rightarrow> int \<Rightarrow> error + any option list"

definition keep_name :: "any option \<Rightarrow> string cap_slice \<Rightarrow> string cap_slice" where
  "keep_name name neighbors =
     (case name of
        Some (VString nameStr) \<Rightarrow> if nameStr \<noteq> [] then append_one neighbors nameStr else neighbors
      | _ \<Rightarrow> neighbors)"

definition getNodeNeighbors :: "neo4j_driver option \<Rightarrow> string \<Rightarrow> int
    \<Rightarrow> panic + (string cap_slice \<times> error option)" where
  "getNodeNeighbors driver nodeID maxNeighbors =
     (case driver of
        None \<Rightarrow> Inl NilDereference
      | Some run \<Rightarrow>
          (case run nodeID maxNeighbors of
             Inl err \<Rightarrow> Inr (nil_slice, Some err)
           | Inr records \<Rightarrow> Inr (fold keep_name records nil_slice, None)))"

text \<open>\<open>strings.Join\<close>, and \<open>s[:3]\<close> of a slice with capacity.\<close>

fun strings_Join :: "string list \<Rightarrow> string \<Rightarrow> string" where
  "strings_Join [] sep = []"
| "strings_Join [x] sep = x"
| "strings_Join (x # y # ys) sep = x @ sep @ strings_Join (y # ys) sep"

definition slice_to :: "string cap_slice \<Rightarrow> nat \<Rightarrow> panic + string list" where
  "slice_to s k =
     (if k \<le> capacity s
        then Inr (take k (items s @ replicate (capacity s - length (items s)) []))
      else Inl SliceBoundsOutOfRange)"

definition related_info :: string where
  "related_info =
     [CHR 0x0A, CHR 0xE7, CHR 0x9B, CHR 0xB8, CHR 0xE5, CHR 0x85, CHR 0xB3, CHR 0xE4,
      CHR 0xBF, CHR 0xA1, CHR 0xE6, CHR 0x81, CHR 0xAF, CHR 0x3A, CHR 0x20]"

definition unknown_dish :: string where
  "unknown_dish =
     [CHR 0xE6, CHR 0x9C, CHR 0xAA, CHR 0xE7, CHR 0x9F, CHR 0xA5, CHR 0xE8, CHR 0x8F,
      CHR 0x9C, CHR 0xE5, CHR 0x93, CHR 0x81]"

definition enhanced_content :: "RetrievalResult \<Rightarrow> string cap_slice \<Rightarrow> panic + string" where
  "enhanced_content entity neighbors =
     (if length (items neighbors) > 0
        then (case slice_to neighbors 3 of
                Inl p \<Rightarrow> Inl p
              | Inr firstThree \<Rightarrow>
                  Inr (rr_Content entity @ related_info @ strings_Join firstThree '', ''))
      else Inr (rr_Content entity))"

text \<open>
  The first loop of \<open>VectorSearchEnhanced\<close>, over the entity cache in the order the runtime
  visits it; \<open>toLower\<close> is \<open>strings.ToLower\<close>. The loop stops once \<open>topK\<close> results are
  collected.
\<close>

fun mock_loop :: "neo4j_driver option \<Rightarrow> (string \<Rightarrow> string) \<Rightarrow> string \<Rightarrow> int
    \<Rightarrow> (string \<times> RetrievalResult) list \<Rightarrow> RetrievalResult list
    \<Rightarrow> panic + RetrievalResult list" where
  "mock_loop driver toLower query topK [] mockResults = Inr mockResults"
| "mock_loop driver toLower query topK ((nodeID, entity) # rest) mockResults =
     (if strings_Contains (toLower (rr_Content entity)) (toLower query) then
        (case getNodeNeighbors driver nodeID 3 of
           Inl p \<Rightarrow> Inl p
         | Inr (neighbors, _) \<Rightarrow>
             (case enhanced_content entity neighbors of
                Inl p \<Rightarrow> Inl p
              | Inr content \<Rightarrow>
                  (let mockResults' = mockResults @
                         [\<lparr>rr_Content = content, NodeID = nodeID, NodeType = NodeType entity,
                           RelevanceScore = 0.8, RetrievalLevel = ''vector'',
                           rr_Metadata = rr_Metadata entity\<rparr>]
                   in if int (length mockResults') \<ge> topK then Inr mockResults'
                      else mock_loop driver toLower query topK rest mockResults')))
      else mock_loop driver toLower query topK rest mockResults)"

definition vector_document :: "RetrievalResult \<Rightarrow> Document" where
  "vector_document result =
     (let md = (case rr_Metadata result of None \<Rightarrow> [] | Some m \<Rightarrow> m);
          recipeName = (case map_of md ''name'' of
                          Some (VString nameStr) \<Rightarrow> nameStr
                        | _ \<Rightarrow> unknown_dish);
          md1 = AList.update ''recipe_name'' (VString recipeName) md;
          md2 = AList.update ''score'' (VFloat (RelevanceScore result)) md1;
          md3 = AList.update ''search_type'' (VString ''vector_enhanced'') md2
      in \<lparr>ID = [], Content = rr_Content result, MetaData = Some md3\<rparr>)"

definition VectorSearchEnhanced :: "neo4j_driver option \<Rightarrow> (string \<Rightarrow> string)
    \<Rightarrow> (string \<times> RetrievalResult) list \<Rightarrow> string \<Rightarrow> int \<Rightarrow> search_result" where
  "VectorSearchEnhanced driver toLower entityCache query topK =
     (case mock_loop driver toLower query topK entityCache [] of
        Inl p \<Rightarrow> Inl p
      | Inr mockResults \<Rightarrow> Inr (appended (map vector_document mockResults), None))"

section \<open>DualLevelRetrieval (hybrid\_retrieval.go)\<close>

text \<open>
  \<open>DualLevelRetrieval\<close> calls \<open>EntityLevelRetrieval\<close> and \<open>TopicLevelRetrieval\<close> with the
  keywords of the query. Either call may panic (both cut \<open>results[:topK]\<close>, which is out of
  bounds for a negative \<open>topK\<close>, and both dereference the driver in the supplementary
  search, which is nil without a connection); what the two calls yield is an argument. A
  call that returns an error counts as an empty list. The merged results are sorted by
  descending relevance with \<open>sort.Slice\<close>, which is not stable and so is an argument too;
  then the first result of every \<open>NodeID\<close> is kept, and the first \<open>topK\<close> of those become
  documents (none when \<open>topK\<close> is not positive). The error is always nil.
\<close>

type_synonym level_result = "panic + (RetrievalResult list \<times> error option)"

fun unique_nodes :: "string list \<Rightarrow> RetrievalResult list \<Rightarrow> RetrievalResult list" where
  "unique_nodes seenNodes [] = []"
| "unique_nodes seenNodes (result # rest) =
     (if NodeID result \<in> set seenNodes then unique_nodes seenNodes rest
      else result # unique_nodes (NodeID result # seenNodes) rest)"

definition dual_document :: "RetrievalResult \<Rightarrow> Document" where
  "dual_document result =
     (let md = (case rr_Metadata result of None \<Rightarrow> [] | Some m \<Rightarrow> m);
          recipeName = (case map_of md ''name'' of
                          Some (VString nameStr) \<Rightarrow> nameStr
                        | _ \<Rightarrow> unknown_dish);
          md1 = AList.update ''node_id'' (VString (NodeID result)) md;
          md2 = AList.update ''node_type'' (VString (NodeType result)) md1;
          md3 = AList.update ''retrieval_level'' (VString (RetrievalLevel result)) md2;
          md4 = AList.update ''relevance_score'' (VFloat (RelevanceScore result)) md3;
          md5 = AList.update ''recipe_name'' (VString recipeName) md4;
          md6 = AList.update ''search_type'' (VString ''dual_level'') md5
      in \<lparr>ID = [], Content = rr_Content result, MetaData = Some md6\<rparr>)"

definition results_or_empty :: "RetrievalResult list \<times> error option \<Rightarrow> RetrievalResult list" where
  "results_or_empty res = (case res of (results, None) \<Rightarrow> results | (results, Some err) \<Rightarrow> [])"

definition DualLevelRetrieval :: "(RetrievalResult list \<Rightarrow> RetrievalResult list)
    \<Rightarrow> level_result \<Rightarrow> level_result \<Rightarrow> int \<Rightarrow> search_result" where
  "DualLevelRetrieval sort_Slice entityLevel topicLevel topK =
     (case entityLevel of
        Inl p \<Rightarrow> Inl p
      | Inr er \<Rightarrow>
          (case topicLevel of
             Inl p \<Rightarrow> Inl p
           | Inr tr \<Rightarrow>
               (let allResults = sort_Slice (results_or_empty er @ results_or_empty tr);
                    uniqueResults = unique_nodes [] allResults;
                    documents = map dual_document (take (nat topK) uniqueResults)
                in Inr (appended documents, None))))"

section \<open>Specification-level notions\<close>

subsection \<open>Query analysis and statistics\<close>

text \<open>
  The analysis as the specification words it: the share of a cue set whose keywords occur
  in the query, and the whitespace-separated tokens of the query (the maximal runs of
  non-space code points).
\<close>

definition cue_ratio :: "string list \<Rightarrow> string \<Rightarrow> real" where
  "cue_ratio cues query = real (card {k \<in> set cues. sublist k query}) / real (card (set cues))"

fun split_runs :: "('a \<Rightarrow> bool) \<Rightarrow> 'a list \<Rightarrow> 'a list list" where
  "split_runs sep [] = [[]]"
| "split_runs sep (x # xs) =
     (if sep x then [] # split_runs sep xs
      else (case split_runs sep xs of p # ps \<Rightarrow> (x # p) # ps | [] \<Rightarrow> [[x]]))"

definition rune_bytes :: "(nat \<times> string) list \<Rightarrow> string" where
  "rune_bytes rs = concat (map snd rs)"

definition whitespace_tokens :: "string \<Rightarrow> string list" where
  "whitespace_tokens s =
     map rune_bytes
       (filter (\<lambda>p. p \<noteq> []) (split_runs (\<lambda>r. unicode_IsSpace (fst r)) (runes s)))"

text \<open>
  The statistics invariant: the total is the sum of the three counters, and every ratio
  is its counter over the total (0 while the total is 0). \<open>counters_le\<close>: no counter
  decreased.
\<close>

definition stats_inv :: "RouteStatistics \<Rightarrow> bool" where
  "stats_inv st \<longleftrightarrow>
     TotalQueries st = TraditionalCount st + GraphRAGCount st + CombinedCount st
   \<and> 0 \<le> TotalQueries st
   \<and> TraditionalRatio st =
       (if TotalQueries st = 0 then 0
        else real_of_int (TraditionalCount st) / real_of_int (TotalQueries st))
   \<and> GraphRAGRatio st =
       (if TotalQueries st = 0 then 0
        else real_of_int (GraphRAGCount st) / real_of_int (TotalQueries st))
   \<and> CombinedRatio st =
       (if TotalQueries st = 0 then 0
        else real_of_int (CombinedCount st) / real_of_int (TotalQueries st))"

definition counters_le :: "RouteStatistics \<Rightarrow> RouteStatistics \<Rightarrow> bool" where
  "counters_le st st' \<longleftrightarrow>
     TotalQueries st \<le> TotalQueries st' \<and> TraditionalCount st \<le> TraditionalCount st'
   \<and> GraphRAGCount st \<le> GraphRAGCount st' \<and> CombinedCount st \<le> CombinedCount st'"

subsection \<open>Round-robin merging\<close>

text \<open>
  Round-robin merging as the specification words it: interleave the two streams position
  by position, keep the first item of every key, stop after \<open>topK\<close> items.
  \<open>annotate_from\<close> numbers the kept items in order of emission, and \<open>emit_step\<close> is one
  step of a deduplicating merge loop that cannot panic.
\<close>

fun interleave :: "'a list \<Rightarrow> 'a list \<Rightarrow> 'a list" where
  "interleave [] ys = ys"
| "interleave (x # xs) [] = x # xs"
| "interleave (x # xs) (y # ys) = x # y # interleave xs ys"

fun dedup_by :: "('a \<Rightarrow> 'k) \<Rightarrow> 'k list \<Rightarrow> 'a list \<Rightarrow> 'a list" where
  "dedup_by key seen [] = []"
| "dedup_by key seen (x # xs) =
     (if key x \<in> set seen then dedup_by key seen xs
      else x # dedup_by key (key x # seen) xs)"

definition round_robin :: "('a \<Rightarrow> 'k) \<Rightarrow> 'a list \<Rightarrow> 'a list \<Rightarrow> nat \<Rightarrow> 'a list" where
  "round_robin key xs ys topK = take topK (dedup_by key [] (interleave xs ys))"

fun annotate_from :: "(nat \<Rightarrow> 'e \<Rightarrow> 'd) \<Rightarrow> nat \<Rightarrow> 'e list \<Rightarrow> 'd list" where
  "annotate_from ann j [] = []"
| "annotate_from ann j (e # es) = ann j e # annotate_from ann (Suc j) es"

definition emit_step :: "('e \<Rightarrow> string) \<Rightarrow> (nat \<Rightarrow> 'e \<Rightarrow> Document) \<Rightarrow> 'e \<Rightarrow> merge_state \<Rightarrow> panic + merge_state" where
  "emit_step key ann e st =
     (case st of (seen, merged) \<Rightarrow>
        if key e \<in> set seen then Inr st
        else Inr (key e # seen, merged @ [ann (length merged) e]))"

text \<open>
  The items of the \<open>HybridSearch\<close> merge: a document with the stream it came from and its
  position there, which the document id falls back on. \<open>hybrid_process\<close> is what the loop
  body does with one item, \<open>hybrid_annotate\<close> the document it emits, \<open>origin_id\<close> the
  \<open>node_id\<close> annotation, and \<open>final_score_spec\<close> the score the specification asks for: the
  relevance score of a dual-level document passed through, the similarity
  \<open>max 0 (1 - distance)\<close> of a vector document, 0 where the annotation is missing or no
  float.
\<close>

datatype stream = DualLevel | VectorEnhanced

type_synonym entry = "stream \<times> nat \<times> Document"

definition positioned :: "'a list \<Rightarrow> (nat \<times> 'a) list" where
  "positioned xs = zip [0..<length xs] xs"

definition tagged :: "stream \<Rightarrow> Document list \<Rightarrow> entry list" where
  "tagged src docs = map (\<lambda>(i, d). (src, i, d)) (positioned docs)"

definition entry_docID :: "(any \<Rightarrow> string) \<Rightarrow> entry \<Rightarrow> string" where
  "entry_docID sprintv e =
     (case e of
        (DualLevel, i, d) \<Rightarrow> dual_docID sprintv i d
      | (VectorEnhanced, i, d) \<Rightarrow> vector_docID sprintv i d)"

definition metadata_of :: "Document \<Rightarrow> metadata" where
  "metadata_of d = (case MetaData d of None \<Rightarrow> [] | Some md \<Rightarrow> md)"

definition hybrid_annotate :: "nat \<Rightarrow> entry \<Rightarrow> Document" where
  "hybrid_annotate j e =
     (case e of
        (DualLevel, i, d) \<Rightarrow> d\<lparr>MetaData := Some (emit_dual j (metadata_of d))\<rparr>
      | (VectorEnhanced, i, d) \<Rightarrow> d\<lparr>MetaData := Some (emit_vector j (metadata_of d))\<rparr>)"

definition hybrid_process :: "(any \<Rightarrow> string) \<Rightarrow> entry \<Rightarrow> merge_state \<Rightarrow> panic + merge_state" where
  "hybrid_process sprintv e st =
     (case e of
        (DualLevel, i, d) \<Rightarrow> add_doc (dual_docID sprintv i d) emit_dual d st
      | (VectorEnhanced, i, d) \<Rightarrow> add_doc (vector_docID sprintv i d) emit_vector d st)"

definition origin_id :: "Document \<Rightarrow> any option" where
  "origin_id d = meta_get d ''node_id''"

definition final_score_spec :: "entry \<Rightarrow> any" where
  "final_score_spec e =
     (case e of
        (DualLevel, i, d) \<Rightarrow>
          (case meta_get d ''relevance_score'' of Some v \<Rightarrow> v | None \<Rightarrow> VFloat 0)
      | (VectorEnhanced, i, d) \<Rightarrow>
          (case meta_get d ''score'' of
             Some (VFloat distance) \<Rightarrow> VFloat (max 0 (1 - distance))
           | _ \<Rightarrow> VFloat 0))"

definition method_name :: "stream \<Rightarrow> string" where
  "method_name src = (case src of DualLevel \<Rightarrow> ''dual_level'' | VectorEnhanced \<Rightarrow> ''vector_enhanced'')"

text \<open>
  The items of the combined merge: a document with the name of its source. Its key is the
  hash of the content prefix. \<open>claimed_combined_merge\<close> is the behaviour claimed for this
  merge, round-robin with deduplication by origin id, compared on the documents' identifier
  and content.
\<close>

definition content_key :: "Document \<Rightarrow> string" where
  "content_key d = (case contentHash d of Inl p \<Rightarrow> [] | Inr h \<Rightarrow> h)"

definition combined_annotate :: "nat \<Rightarrow> string \<times> Document \<Rightarrow> Document" where
  "combined_annotate j e =
     (snd e)\<lparr>MetaData :=
               Some (AList.update ''search_source'' (VString (fst e)) (metadata_of (snd e)))\<rparr>"

definition combined_process :: "string \<times> Document \<Rightarrow> merge_state \<Rightarrow> panic + merge_state" where
  "combined_process e st = add_combined (fst e) (snd e) st"

definition doc_ident :: "Document \<Rightarrow> string \<times> string" where
  "doc_ident d = (ID d, Content d)"

definition claimed_combined_merge :: "Document list \<Rightarrow> Document list \<Rightarrow> int \<Rightarrow> bool" where
  "claimed_combined_merge graphDocs traditionalDocs topK =
     (case combined_merge graphDocs traditionalDocs topK of
        Inl p \<Rightarrow> False
      | Inr out \<Rightarrow>
          distinct (map origin_id (elems out))
          \<and> map doc_ident (elems out)
              = map doc_ident (round_robin origin_id graphDocs traditionalDocs (nat topK)))"

subsection \<open>Query understanding and routing\<close>

text \<open>
  The two retrieval modules as the system wires them: \<open>HybridSearch\<close> over what
  \<open>DualLevelRetrieval\<close> and \<open>VectorSearchEnhanced\<close> yield, \<open>GraphRAGSearch\<close> over the module's
  driver.
\<close>

definition system_retrievers :: "(any \<Rightarrow> string) \<Rightarrow> (string \<Rightarrow> int \<Rightarrow> search_result)
    \<Rightarrow> (string \<Rightarrow> int \<Rightarrow> search_result) \<Rightarrow> (GraphQuery \<Rightarrow> string \<Rightarrow> Document slice) option
    \<Rightarrow> llm_env \<Rightarrow> retrievers" where
  "system_retrievers sprintv dual vector driver env =
     \<lparr>hybrid_search = (\<lambda>n query topK. HybridSearch sprintv (dual query topK) (vector query topK) topK),
      graph_search = (\<lambda>n query topK. GraphRAGSearch driver env query topK)\<rparr>"

text \<open>The name of the replacement field that the JSON example of the prompt opens.\<close>

definition json_example_name :: string where
  "json_example_name =
     [CHR 0x0A, CHR 0x09, CHR 0x09, CHR 0x09, CHR 0x09, CHR 0x22] @ ''query_type'' @ [CHR 0x22]"

text \<open>
  Properties of one call as the specification states them: the plan is valid (depth and
  node budget at least 1), the router returns an error, the router returns a non-nil
  document list and no error.
\<close>

definition claimed_valid_plan :: "llm_env \<Rightarrow> string \<Rightarrow> bool" where
  "claimed_valid_plan env query =
     (case UnderstandGraphQuery env query of
        Inl err \<Rightarrow> False
      | Inr plan \<Rightarrow> 1 \<le> MaxDepth plan \<and> 1 \<le> MaxNodes plan)"


definition returns_non_nil_list :: "route_outcome \<Rightarrow> bool" where
  "returns_non_nil_list out =
     (case returned out of
        Inl p \<Rightarrow> False
      | Inr (documents, analysis, err) \<Rightarrow> documents \<noteq> NilSlice \<and> err = None)"

subsection \<open>Vector search and the keyword index\<close>

text \<open>
  The neighbour names \<open>getNodeNeighbors\<close> keeps for a node over a connection, the
  entities of the cache that \<open>VectorSearchEnhanced\<close> matches, and those among them with one
  or two neighbour names. \<open>grown\<close> is what holds of a slice built by \<open>append\<close> from nil:
  below three elements its capacity is its length.
\<close>

definition neighbor_names :: "neo4j_driver \<Rightarrow> string \<Rightarrow> string list" where
  "neighbor_names run nodeID =
     (case getNodeNeighbors (Some run) nodeID 3 of
        Inr (neighbors, err) \<Rightarrow> items neighbors
      | Inl p \<Rightarrow> [])"

definition matched :: "(string \<Rightarrow> string) \<Rightarrow> string \<Rightarrow> string \<times> RetrievalResult \<Rightarrow> bool" where
  "matched toLower query e =
     strings_Contains (toLower (rr_Content (snd e))) (toLower query)"

definition few_neighbors :: "neo4j_driver \<Rightarrow> (string \<Rightarrow> string) \<Rightarrow> string
    \<Rightarrow> string \<times> RetrievalResult \<Rightarrow> bool" where
  "few_neighbors run toLower query e =
     (matched toLower query e
      \<and> (length (neighbor_names run (fst e)) = 1 \<or> length (neighbor_names run (fst e)) = 2))"

definition grown :: "'a cap_slice \<Rightarrow> bool" where
  "grown s \<longleftrightarrow> length (items s) \<le> capacity s
               \<and> (length (items s) < 3 \<longrightarrow> capacity s = length (items s))"

text \<open>
  The ids a mapping holds for a key; two answers of a mapping that hold the same ids with
  the same multiplicities; two pairs of mappings that agree on every key.
\<close>

definition ids_of :: "key_index \<Rightarrow> string \<Rightarrow> string list" where
  "ids_of m key = (case m key of None \<Rightarrow> [] | Some ids \<Rightarrow> ids)"

definition same_ids :: "string list option \<Rightarrow> string list option \<Rightarrow> bool" where
  "same_ids a b =
     (case (a, b) of
        (None, None) \<Rightarrow> True
      | (Some xs, Some ys) \<Rightarrow> mset xs = mset ys
      | _ \<Rightarrow> False)"

definition identical_mappings :: "key_index \<times> key_index \<Rightarrow> key_index \<times> key_index \<Rightarrow> bool" where
  "identical_mappings a b \<longleftrightarrow> (\<forall>key. fst a key = fst b key \<and> snd a key = snd b key)"

subsection \<open>Evaluation\<close>

text \<open>
  The length of a list counted with an integer accumulator: equal to \<^const>\<open>length\<close> and
  evaluated by the simplifier to a numeral.
\<close>

fun count_from :: "int \<Rightarrow> 'a list \<Rightarrow> int" where
  "count_from n [] = n"
| "count_from n (x # xs) = count_from (n + 1) xs"

section \<open>Concrete inputs\<close>

text \<open>
  Two queries: a question on what goes with chicken (one relation cue), and one made of
  five complexity cues. Retrieval modules that find nothing, and the system's modules over
  empty stores, without and with a graph connection. An LLM client that times out, with a
  formatting library that describes an error by its kind.
\<close>

definition query_chicken :: string where
  "query_chicken =
     [CHR 0xE9, CHR 0xB8, CHR 0xA1, CHR 0xE8, CHR 0x82, CHR 0x89, CHR 0xE9, CHR 0x85,
      CHR 0x8D, CHR 0xE4, CHR 0xBB, CHR 0x80, CHR 0xE4, CHR 0xB9, CHR 0x88, CHR 0xE8,
      CHR 0x94, CHR 0xAC, CHR 0xE8, CHR 0x8F, CHR 0x9C, CHR 0xEF, CHR 0xBC, CHR 0x9F]"

definition query_reasoning :: string where
  "query_reasoning =
     [CHR 0xE4, CHR 0xB8, CHR 0xBA, CHR 0xE4, CHR 0xBB, CHR 0x80, CHR 0xE4, CHR 0xB9,
      CHR 0x88, CHR 0xE5, CHR 0xA6, CHR 0x82, CHR 0xE4, CHR 0xBD, CHR 0x95, CHR 0xE5,
      CHR 0x85, CHR 0xB3, CHR 0xE7, CHR 0xB3, CHR 0xBB, CHR 0xE5, CHR 0xBD, CHR 0xB1,
      CHR 0xE5, CHR 0x93, CHR 0x8D, CHR 0xE5, CHR 0x8E, CHR 0x9F, CHR 0xE5, CHR 0x9B,
      CHR 0xA0]"

definition sprint_strings :: "any \<Rightarrow> string" where
  "sprint_strings v = (case v of VString s \<Rightarrow> s | _ \<Rightarrow> ''<nil>'')"

definition timeout_env :: llm_env where
  "timeout_env =
     \<lparr>format_Error = (\<lambda>e. case e of
                              KeyError name \<Rightarrow> ''KeyError: '' @ name
                            | SingleClosingBrace \<Rightarrow> ''single closing brace''
                            | SingleOpeningBrace \<Rightarrow> ''single opening brace''),
      llm_Generate = (\<lambda>messages. Inl ''context deadline exceeded''),
      json_Unmarshal = (\<lambda>content. Inl ''unexpected end of JSON input'')\<rparr>"

definition idle_retrievers :: retrievers where
  "idle_retrievers =
     \<lparr>hybrid_search = (\<lambda>n query topK. Inr (NilSlice, None)),
      graph_search = (\<lambda>n query topK. Inr (Slice [], None))\<rparr>"

definition empty_stores :: retrievers where
  "empty_stores =
     system_retrievers sprint_strings (\<lambda>query topK. Inr (NilSlice, None))
       (\<lambda>query topK. Inr (NilSlice, None)) None timeout_env"


text \<open>
  Documents: a graph path and a traditional result whose contents have the same length
  and first byte, two dual-level and two vector results of which one pair shares a
  \<open>node_id\<close>, and a document without content.
\<close>

definition graph_doc_1 :: Document where
  "graph_doc_1 =
     \<lparr>ID = ''path_0'', Content = ''Chicken --REQUIRES--> Salt'',
      MetaData = Some [(''search_type'', VString ''graph_path'')]\<rparr>"

definition traditional_doc_1 :: Document where
  "traditional_doc_1 =
     \<lparr>ID = [], Content = ''Chicken soup, slow cooked.'',
      MetaData = Some [(''node_id'', VString ''n2''), (''relevance_score'', VFloat 0.9)]\<rparr>"

definition dual_doc_a :: Document where
  "dual_doc_a =
     \<lparr>ID = [], Content = ''Kung Pao Chicken'',
      MetaData = Some [(''node_id'', VString ''n1''), (''relevance_score'', VFloat 0.9)]\<rparr>"

definition dual_doc_b :: Document where
  "dual_doc_b =
     \<lparr>ID = [], Content = ''Chicken breast'',
      MetaData = Some [(''node_id'', VString ''n2''), (''relevance_score'', VFloat 0.85)]\<rparr>"

definition vector_doc_a :: Document where
  "vector_doc_a =
     \<lparr>ID = [], Content = ''Kung Pao Chicken, a Sichuan dish'',
      MetaData = Some [(''node_id'', VString ''n1''), (''score'', VFloat 0.8)]\<rparr>"

definition vector_doc_b :: Document where
  "vector_doc_b =
     \<lparr>ID = [], Content = ''Peanuts'',
      MetaData = Some [(''name'', VString ''Peanuts''), (''score'', VFloat 0.8)]\<rparr>"

definition empty_doc :: Document where
  "empty_doc = \<lparr>ID = ''path_1'', Content = [], MetaData = None\<rparr>"

text \<open>
  A lower-casing of ASCII letters, a cached entity, and graph stores that know one and
  three neighbours of every node.
\<close>

definition ascii_toLower :: "string \<Rightarrow> string" where
  "ascii_toLower s =
     map (\<lambda>c. case map_of (zip ''ABCDEFGHIJKLMNOPQRSTUVWXYZ'' ''abcdefghijklmnopqrstuvwxyz'') c of
                Some l \<Rightarrow> l
              | None \<Rightarrow> c) s"

definition soup_entity :: RetrievalResult where
  "soup_entity =
     \<lparr>rr_Content = ''Chicken Soup'', NodeID = ''n1'', NodeType = ''Recipe'',
      RelevanceScore = 0.8, RetrievalLevel = ''entity'',
      rr_Metadata = Some [(''name'', VString ''Chicken Soup'')]\<rparr>"

definition one_neighbor_store :: neo4j_driver where
  "one_neighbor_store nodeID limit = Inr [Some (VString ''Salt'')]"

definition three_neighbor_store :: neo4j_driver where
  "three_neighbor_store nodeID limit =
     Inr [Some (VString ''Salt''), Some (VString ''Chicken''), Some (VString ''Ginger'')]"

text \<open>
  Two relations of one recipe, which share the index key of their relation type.
\<close>

definition relation_salt :: "string \<times> RelationKeyValue" where
  "relation_salt =
     (''rel_0_r1_i1'',
      \<lparr>RelationID = ''rel_0_r1_i1'', r_IndexKeys = [''REQUIRES'', ''Salt''],
       r_ValueContent = ''REQUIRES: Chicken Soup -> Salt'', RelationType = ''REQUIRES'',
       SourceEntity = ''r1'', TargetEntity = ''i1''\<rparr>)"

definition relation_ginger :: "string \<times> RelationKeyValue" where
  "relation_ginger =
     (''rel_1_r1_i2'',
      \<lparr>RelationID = ''rel_1_r1_i2'', r_IndexKeys = [''REQUIRES'', ''Ginger''],
       r_ValueContent = ''REQUIRES: Chicken Soup -> Ginger'', RelationType = ''REQUIRES'',
       SourceEntity = ''r1'', TargetEntity = ''i2''\<rparr>)"

section \<open>Evaluation helpers\<close>

lemma count_from_length: "count_from n xs = n + int (length xs)"
  by (induction xs arbitrary: n) auto

lemma length_numeral: "length xs = nat (count_from 0 xs)"
  by (simp add: count_from_length)

section \<open>Rule-based analysis\<close>

lemma strings_Contains_sublist: "strings_Contains s sub \<longleftrightarrow> sublist sub s"
  by (induction s) (auto simp: sublist_Cons_right)

lemma count_hits_fold:
  "fold (\<lambda>keyword n. if strings_Contains query keyword then n + 1 else n) ks (a::int)
     = a + int (length (filter (strings_Contains query) ks))"
  by (induction ks arbitrary: a) auto

lemma count_hits_card:
  assumes "distinct ks"
  shows "count_hits query ks = int (card {k \<in> set ks. sublist k query})"
proof -
  have "count_hits query ks = int (length (filter (strings_Contains query) ks))"
    by (simp add: count_hits_def count_hits_fold)
  also have "length (filter (strings_Contains query) ks)
      = card ({k. strings_Contains query k} \<inter> set ks)"
    using assms by (rule distinct_length_filter)
  also have "{k. strings_Contains query k} \<inter> set ks = {k \<in> set ks. sublist k query}"
    by (auto simp: strings_Contains_sublist)
  finally show ?thesis .
qed

lemma split_runs_nonempty: "split_runs sep xs \<noteq> []"
  by (induction xs) (auto split: list.splits)

lemma FieldsFunc_loop_split:
  "FieldsFunc_loop f rs None
     = map rune_bytes (filter (\<lambda>p. p \<noteq> []) (split_runs (\<lambda>r. f (fst r)) rs))"
  "FieldsFunc_loop f rs (Some fld)
     = (fld @ rune_bytes (hd (split_runs (\<lambda>r. f (fst r)) rs)))
        # map rune_bytes (filter (\<lambda>p. p \<noteq> []) (tl (split_runs (\<lambda>r. f (fst r)) rs)))"
proof (induction rs arbitrary: fld)
  case Nil
  { case 1 show ?case by (simp add: rune_bytes_def) }
  { case 2 show ?case by (simp add: rune_bytes_def) }
next
  case (Cons a rs)
  obtain r bs where a: "a = (r, bs)" by (cases a)
  obtain p ps where sp: "split_runs (\<lambda>r. f (fst r)) rs = p # ps"
    using split_runs_nonempty[of "\<lambda>r. f (fst r)" rs]
    by (cases "split_runs (\<lambda>r. f (fst r)) rs") auto
  { case 1 show ?case using Cons.IH sp by (simp add: a rune_bytes_def) }
  { case 2 show ?case using Cons.IH sp by (simp add: a rune_bytes_def) }
qed

lemma strings_Fields_tokens: "strings_Fields s = whitespace_tokens s"
  by (simp add: strings_Fields_def whitespace_tokens_def FieldsFunc_loop_split)

lemma length_complexityKeywords: "length complexityKeywords = 9"
  by (simp add: complexityKeywords_def)

lemma length_relationKeywords: "length relationKeywords = 8"
  by (simp add: relationKeywords_def)

lemma distinct_complexityKeywords: "distinct complexityKeywords"
  by (simp add: complexityKeywords_def)

lemma distinct_relationKeywords: "distinct relationKeywords"
  by (simp add: relationKeywords_def)

lemma complexity_ratio:
  "real_of_int (count_hits query complexityKeywords) / real (length complexityKeywords)
     = cue_ratio complexityKeywords query"
  using distinct_complexityKeywords by (simp add: cue_ratio_def count_hits_card distinct_card)

lemma relation_ratio:
  "real_of_int (count_hits query relationKeywords) / real (length relationKeywords)
     = cue_ratio relationKeywords query"
  using distinct_relationKeywords by (simp add: cue_ratio_def count_hits_card distinct_card)

lemma hits_chicken_relation: "count_hits query_chicken relationKeywords = 1"
  by (simp add: count_hits_def query_chicken_def relationKeywords_def)

lemma hits_chicken_complexity: "count_hits query_chicken complexityKeywords = 0"
  by (simp add: count_hits_def query_chicken_def complexityKeywords_def)

lemma fields_chicken: "strings_Fields query_chicken = [query_chicken]"
  by (simp add: strings_Fields_def query_chicken_def byte_in_def cont_bits_def
      unicode_IsSpace_def)

lemma analysis_chicken:
  "ruleBasedAnalysis query_chicken =
     \<lparr>QueryComplexity = 0, RelationshipIntensity = 1 / 8, ReasoningRequired = False,
      EntityCount = 1, RecommendedStrategy = HybridTraditional, Confidence = 0.6,
      Reasoning = reasoning_traditional\<rparr>"
  by (simp add: ruleBasedAnalysis_def hits_chicken_relation hits_chicken_complexity
      fields_chicken length_complexityKeywords length_relationKeywords)

text \<open>
  Claim C6. For every query, the rule-based analysis sets the complexity to the number of
  complexity cues that occur in the query over the size of the cue set, the relationship
  intensity likewise over the relation cues, the entity count to the number of
  whitespace-separated tokens, \<open>ReasoningRequired\<close> to (complexity > 0.3 or intensity > 0.3),
  and picks graph\_rag with confidence 0.8 when one score exceeds 0.5, else combined with
  confidence 0.7 when one exceeds 0.3, else hybrid\_traditional with confidence 0.6.
\<close>

theorem ruleBasedAnalysis_spec:
  fixes query :: string
  defines "a \<equiv> ruleBasedAnalysis query"
    and "complexity \<equiv> cue_ratio complexityKeywords query"
    and "relationIntensity \<equiv> cue_ratio relationKeywords query"
  shows "QueryComplexity a = complexity
       \<and> RelationshipIntensity a = relationIntensity
       \<and> EntityCount a = int (length (whitespace_tokens query))
       \<and> ReasoningRequired a = (complexity > 0.3 \<or> relationIntensity > 0.3)
       \<and> (RecommendedStrategy a, Confidence a) =
           (if complexity > 0.5 \<or> relationIntensity > 0.5 then (GraphRAG, 0.8)
            else if complexity > 0.3 \<or> relationIntensity > 0.3 then (Combined, 0.7)
            else (HybridTraditional, 0.6))"
  unfolding a_def complexity_def relationIntensity_def ruleBasedAnalysis_def Let_def
    complexity_ratio relation_ratio strings_Fields_tokens
  by simp

theorem ruleBasedAnalysis_spec_witness:
  "cue_ratio complexityKeywords query_chicken = 0
   \<and> cue_ratio relationKeywords query_chicken = 1 / 8
   \<and> length (whitespace_tokens query_chicken) = 1
   \<and> RecommendedStrategy (ruleBasedAnalysis query_chicken) = HybridTraditional
   \<and> Confidence (ruleBasedAnalysis query_chicken) = 0.6"
  using ruleBasedAnalysis_spec [of query_chicken] by (simp add: analysis_chicken)

section \<open>Route statistics\<close>

lemma strategy_known:
  "RecommendedStrategy (ruleBasedAnalysis q) \<in> {HybridTraditional, GraphRAG, Combined}"
  by (simp add: ruleBasedAnalysis_def Let_def)

lemma stats_after_RouteQuery:
  "stats_after (RouteQuery r st q k)
     = updateRouteStats (RecommendedStrategy (ruleBasedAnalysis q)) st"
  by (simp add: RouteQuery_def AnalyzeQuery_def Let_def
      split: prod.splits sum.splits option.splits)

lemma strategies_distinct:
  "HybridTraditional \<noteq> GraphRAG" "HybridTraditional \<noteq> Combined" "GraphRAG \<noteq> Combined"
  by (simp_all add: HybridTraditional_def GraphRAG_def Combined_def)

lemma update_inv:
  assumes "stats_inv st" "s \<in> {HybridTraditional, GraphRAG, Combined}"
  shows "stats_inv (updateRouteStats s st)"
  using assms strategies_distinct
  by (auto simp: stats_inv_def updateRouteStats_def Let_def)

lemma update_mono: "counters_le st (updateRouteStats s st)"
  by (simp add: counters_le_def updateRouteStats_def Let_def)

lemma route_step_inv:
  "stats_inv st \<Longrightarrow> stats_inv (stats_after (RouteQuery r st q k))"
  unfolding stats_after_RouteQuery by (rule update_inv[OF _ strategy_known])

lemma route_all_inv: "stats_inv st \<Longrightarrow> stats_inv (route_all st reqs)"
proof (induction reqs arbitrary: st)
  case Nil
  then show ?case by simp
next
  case (Cons req reqs)
  obtain r q k where req: "req = (r, q, k)" by (cases req)
  show ?case unfolding req route_all.simps
    by (rule Cons.IH[OF route_step_inv[OF Cons.prems]])
qed

lemma new_routeStats_inv: "stats_inv new_routeStats"
  by (simp add: stats_inv_def new_routeStats_def)

text \<open>
  An unknown strategy string counts in the total only, so the invariant rests on the
  analysis naming one of the three strategies.
\<close>

lemma unknown_strategy_breaks_sum:
  "\<not> stats_inv (updateRouteStats ''other'' new_routeStats)"
  by (simp add: stats_inv_def updateRouteStats_def new_routeStats_def Let_def
      HybridTraditional_def GraphRAG_def Combined_def)

text \<open>
  Claim C4. After every sequence of \<open>RouteQuery\<close> calls on a freshly constructed router,
  \<open>TotalQueries\<close> is the sum of the three counters and every ratio is its counter divided by
  \<open>TotalQueries\<close> (0 when that is 0); and one more call decreases no counter.
\<close>

theorem route_statistics_invariant:
  "stats_inv (route_all new_routeStats reqs)
   \<and> counters_le (route_all new_routeStats reqs)
        (stats_after (RouteQuery r (route_all new_routeStats reqs) query topK))"
  by (simp add: route_all_inv new_routeStats_inv stats_after_RouteQuery update_mono)

lemma analysis_why:
  "RecommendedStrategy (ruleBasedAnalysis ''why'') = HybridTraditional"
  by (simp add: ruleBasedAnalysis_def count_hits_def complexityKeywords_def
      relationKeywords_def)

theorem route_statistics_invariant_witness:
  "TotalQueries (route_all new_routeStats [(idle_retrievers, query_chicken, 5)]) = 1
   \<and> TraditionalRatio (route_all new_routeStats [(idle_retrievers, query_chicken, 5)]) = 1
   \<and> TotalQueries (stats_after (RouteQuery idle_retrievers
         (route_all new_routeStats [(idle_retrievers, query_chicken, 5)]) ''why'' 3)) = 2"
  using route_statistics_invariant
    [of "[(idle_retrievers, query_chicken, 5)]" idle_retrievers "''why''" 3]
  by (simp add: stats_inv_def counters_le_def stats_after_RouteQuery analysis_chicken
      analysis_why updateRouteStats_def new_routeStats_def Let_def
      HybridTraditional_def GraphRAG_def Combined_def)

section \<open>Round-robin merging\<close>

lemma for_loop_append:
  "for_loop (as @ bs) body st =
     (case for_loop as body st of Inl p \<Rightarrow> Inl p | Inr st' \<Rightarrow> for_loop bs body st')"
  by (induction as arbitrary: st) (auto split: sum.splits)

lemma for_loop_cong:
  "(\<And>e st. e \<in> set es \<Longrightarrow> f e st = g e st) \<Longrightarrow> for_loop es f st = for_loop es g st"
  by (induction es arbitrary: st) (auto split: sum.splits)

lemma interleave_Nil2 [simp]: "interleave xs [] = xs"
  by (cases xs) auto

lemma interleave_take_Suc:
  "interleave (take (Suc n) xs) (take (Suc n) ys)
     = interleave (take n xs) (take n ys)
        @ (if n < length xs then [xs ! n] else [])
        @ (if n < length ys then [ys ! n] else [])"
proof (induction xs ys arbitrary: n rule: interleave.induct)
  case (1 ys)
  then show ?case by (simp add: take_Suc_conv_app_nth)
next
  case (2 x xs)
  then show ?case by (auto simp: take_Suc_conv_app_nth simp del: take_Suc_Cons)
next
  case (3 x xs y ys)
  then show ?case by (cases n) auto
qed

lemma emit_step_run:
  "for_loop es (emit_step key ann) (seen, merged)
     = Inr (rev (map key (dedup_by key seen es)) @ seen,
            merged @ annotate_from ann (length merged) (dedup_by key seen es))"
proof (induction es arbitrary: seen merged)
  case Nil
  then show ?case by simp
next
  case (Cons e es)
  show ?case
  proof (cases "key e \<in> set seen")
    case True
    then show ?thesis using Cons.IH[of seen merged] by (simp add: emit_step_def)
  next
    case False
    then show ?thesis
      using Cons.IH[of "key e # seen" "merged @ [ann (length merged) e]"]
      by (simp add: emit_step_def)
  qed
qed

lemma take_annotate_from:
  "take k (annotate_from ann j es) = annotate_from ann j (take k es)"
  by (induction es arbitrary: k j) (auto simp: take_Cons split: nat.splits)

lemma length_annotate_from [simp]: "length (annotate_from ann j es) = length es"
  by (induction es arbitrary: j) auto

lemma dedup_by_fresh: "x \<in> set (dedup_by key seen xs) \<Longrightarrow> key x \<notin> set seen"
proof (induction xs arbitrary: seen)
  case Nil
  then show ?case by simp
next
  case (Cons a xs)
  show ?case
  proof (cases "key a \<in> set seen")
    case True
    then show ?thesis using Cons by simp
  next
    case False
    then show ?thesis using Cons.prems Cons.IH[of "key a # seen"] by auto
  qed
qed

lemma dedup_by_distinct: "distinct (map key (dedup_by key seen xs))"
proof (induction xs arbitrary: seen)
  case Nil
  then show ?case by simp
next
  case (Cons a xs)
  show ?case
  proof (cases "key a \<in> set seen")
    case True
    then show ?thesis using Cons.IH by simp
  next
    case False
    have "key a \<notin> key ` set (dedup_by key (key a # seen) xs)"
    proof
      assume "key a \<in> key ` set (dedup_by key (key a # seen) xs)"
      then obtain x where "x \<in> set (dedup_by key (key a # seen) xs)" "key x = key a"
        by auto
      then show False using dedup_by_fresh[of x key "key a # seen" xs] by simp
    qed
    then show ?thesis using False Cons.IH by simp
  qed
qed

section \<open>The two merges against the round-robin specification\<close>

lemma length_positioned [simp]: "length (positioned xs) = length xs"
  by (simp add: positioned_def)

lemma nth_positioned [simp]: "i < length xs \<Longrightarrow> positioned xs ! i = (i, xs ! i)"
  by (simp add: positioned_def)

lemma length_tagged [simp]: "length (tagged src docs) = length docs"
  by (simp add: tagged_def)

lemma nth_tagged [simp]: "i < length docs \<Longrightarrow> tagged src docs ! i = (src, i, docs ! i)"
  by (simp add: tagged_def)

lemma set_tagged: "e \<in> set (tagged src docs) \<Longrightarrow> fst e = src \<and> snd (snd e) \<in> set docs"
  by (auto simp: tagged_def positioned_def in_set_zip)

lemma set_interleave [simp]: "set (interleave xs ys) = set xs \<union> set ys"
  by (induction xs ys rule: interleave.induct) auto

lemma hybrid_step_entries:
  "hybrid_step sprintv xs ys i st =
     for_loop ((if i < length xs then [(DualLevel, i, xs ! i)] else [])
               @ (if i < length ys then [(VectorEnhanced, i, ys ! i)] else []))
       (hybrid_process sprintv) st"
  by (auto simp: hybrid_step_def hybrid_process_def split: sum.splits)

lemma hybrid_loop_interleave:
  "for_loop [0..<n] (hybrid_step sprintv xs ys) st =
     for_loop (interleave (take n (tagged DualLevel xs)) (take n (tagged VectorEnhanced ys)))
       (hybrid_process sprintv) st"
proof (induction n arbitrary: st)
  case 0
  then show ?case by simp
next
  case (Suc n)
  have "for_loop [0..<Suc n] (hybrid_step sprintv xs ys) st =
      (case for_loop [0..<n] (hybrid_step sprintv xs ys) st of
         Inl p \<Rightarrow> Inl p
       | Inr st' \<Rightarrow> hybrid_step sprintv xs ys n st')"
    by (simp add: for_loop_append split: sum.splits)
  also have "\<dots> =
      (case for_loop (interleave (take n (tagged DualLevel xs)) (take n (tagged VectorEnhanced ys)))
              (hybrid_process sprintv) st of
         Inl p \<Rightarrow> Inl p
       | Inr st' \<Rightarrow>
           for_loop ((if n < length xs then [(DualLevel, n, xs ! n)] else [])
                     @ (if n < length ys then [(VectorEnhanced, n, ys ! n)] else []))
             (hybrid_process sprintv) st')"
    by (simp only: Suc.IH hybrid_step_entries)
  also have "\<dots> =
      for_loop (interleave (take (Suc n) (tagged DualLevel xs))
                  (take (Suc n) (tagged VectorEnhanced ys)))
        (hybrid_process sprintv) st"
    unfolding interleave_take_Suc for_loop_append[symmetric]
    by (simp del: for_loop.simps)
  finally show ?case .
qed

lemma hybrid_process_emit:
  assumes "MetaData (snd (snd e)) \<noteq> None"
  shows "hybrid_process sprintv e st = emit_step (entry_docID sprintv) hybrid_annotate e st"
proof -
  obtain src i d where e: "e = (src, i, d)" by (cases e)
  obtain seen merged where st: "st = (seen, merged)" by (cases st)
  from assms obtain md where md: "MetaData d = Some md" by (auto simp: e)
  show ?thesis
    by (cases src)
       (simp_all add: e st md hybrid_process_def emit_step_def entry_docID_def
          hybrid_annotate_def add_doc_def metadata_of_def)
qed

lemma elems_truncate_to:
  "0 \<le> topK \<Longrightarrow> \<exists>out. truncate_to docs topK = Inr out \<and> elems out = take (nat topK) docs"
  by (auto simp: truncate_to_def appended_def)

lemma hybrid_merge_round_robin:
  assumes "\<forall>d \<in> set dualDocs \<union> set vectorDocs. MetaData d \<noteq> None" and "0 \<le> topK"
  shows "\<exists>out. hybrid_merge sprintv dualDocs vectorDocs topK = Inr out
           \<and> elems out = annotate_from hybrid_annotate 0
               (round_robin (entry_docID sprintv) (tagged DualLevel dualDocs)
                  (tagged VectorEnhanced vectorDocs) (nat topK))"
proof -
  let ?n = "if length vectorDocs > length dualDocs then length vectorDocs else length dualDocs"
  let ?es = "interleave (tagged DualLevel dualDocs) (tagged VectorEnhanced vectorDocs)"
  let ?sel = "dedup_by (entry_docID sprintv) [] ?es"
  have "for_loop [0..<?n] (hybrid_step sprintv dualDocs vectorDocs) ([], [])
      = for_loop ?es (hybrid_process sprintv) ([], [])"
    by (simp add: hybrid_loop_interleave)
  also have "\<dots> = for_loop ?es (emit_step (entry_docID sprintv) hybrid_annotate) ([], [])"
  proof (rule for_loop_cong)
    fix e st assume "e \<in> set ?es"
    then have "snd (snd e) \<in> set dualDocs \<union> set vectorDocs"
      using set_tagged[of e] by auto
    then have "MetaData (snd (snd e)) \<noteq> None"
      using assms(1) by blast
    then show "hybrid_process sprintv e st = emit_step (entry_docID sprintv) hybrid_annotate e st"
      by (rule hybrid_process_emit)
  qed
  also have "\<dots> = Inr (rev (map (entry_docID sprintv) ?sel) @ [],
                        [] @ annotate_from hybrid_annotate (length ([]::Document list)) ?sel)"
    by (rule emit_step_run)
  finally have loop: "for_loop [0..<?n] (hybrid_step sprintv dualDocs vectorDocs) ([], [])
      = Inr (rev (map (entry_docID sprintv) ?sel), annotate_from hybrid_annotate 0 ?sel)"
    by simp
  obtain out where "truncate_to (annotate_from hybrid_annotate 0 ?sel) topK = Inr out"
    "elems out = take (nat topK) (annotate_from hybrid_annotate 0 ?sel)"
    using elems_truncate_to[OF assms(2)] by blast
  then show ?thesis
    unfolding hybrid_merge_def Let_def loop round_robin_def
    by (simp add: take_annotate_from)
qed

lemma combined_step_entries:
  "combined_step gs ts i st =
     for_loop ((if i < length gs then [(''graph_rag'', gs ! i)] else [])
               @ (if i < length ts then [(''traditional'', ts ! i)] else []))
       combined_process st"
  by (auto simp: combined_step_def combined_process_def split: sum.splits)

lemma loop_interleave:
  assumes "\<And>i st. step i st =
      for_loop ((if i < length xs then [xs ! i] else []) @ (if i < length ys then [ys ! i] else []))
        proc st"
  shows "for_loop [0..<n] step st = for_loop (interleave (take n xs) (take n ys)) proc st"
proof (induction n arbitrary: st)
  case 0
  then show ?case by simp
next
  case (Suc n)
  have "for_loop [0..<Suc n] step st =
      (case for_loop [0..<n] step st of Inl p \<Rightarrow> Inl p | Inr st' \<Rightarrow> step n st')"
    by (simp add: for_loop_append split: sum.splits)
  also have "\<dots> =
      (case for_loop (interleave (take n xs) (take n ys)) proc st of
         Inl p \<Rightarrow> Inl p
       | Inr st' \<Rightarrow>
           for_loop ((if n < length xs then [xs ! n] else [])
                     @ (if n < length ys then [ys ! n] else [])) proc st')"
    by (simp only: Suc.IH assms)
  also have "\<dots> = for_loop (interleave (take (Suc n) xs) (take (Suc n) ys)) proc st"
    unfolding interleave_take_Suc for_loop_append[symmetric]
    by (simp del: for_loop.simps)
  finally show ?case .
qed

lemma combined_loop_interleave:
  "for_loop [0..<n] (combined_step gs ts) st =
     for_loop (interleave (take n (map (Pair ''graph_rag'') gs))
                 (take n (map (Pair ''traditional'') ts))) combined_process st"
  by (rule loop_interleave) (simp add: combined_step_entries)

lemma contentHash_nonempty:
  "Content d \<noteq> [] \<Longrightarrow> contentHash d = Inr (content_key d)"
  by (cases "Content d") (auto simp: content_key_def contentHash_def hashString_def min_int_def
      split: list.splits)

lemma contentHash_empty: "Content d = [] \<Longrightarrow> contentHash d = Inl IndexOutOfRange"
  by (simp add: contentHash_def hashString_def)

lemma combined_process_emit:
  assumes "Content (snd e) \<noteq> []"
  shows "combined_process e st = emit_step (\<lambda>e. content_key (snd e)) combined_annotate e st"
proof -
  obtain seen merged where st: "st = (seen, merged)" by (cases st)
  show ?thesis
    using contentHash_nonempty[OF assms]
    by (simp add: st combined_process_def add_combined_def emit_step_def combined_annotate_def
        metadata_of_def)
qed

lemma combined_process_panic:
  assumes "combined_process e st = Inl p"
  shows "p = IndexOutOfRange \<and> Content (snd e) = []"
proof (cases "Content (snd e) = []")
  case True
  then show ?thesis
    using assms by (simp add: combined_process_def add_combined_def contentHash_empty)
next
  case False
  then show ?thesis
    using assms combined_process_emit[OF False, of st]
    by (cases st) (simp add: emit_step_def split: if_splits)
qed

lemma combined_process_empty:
  "Content (snd e) = [] \<Longrightarrow> combined_process e st = Inl IndexOutOfRange"
  by (simp add: combined_process_def add_combined_def contentHash_empty)

lemma combined_loop_panics:
  "for_loop es combined_process st = Inl IndexOutOfRange
     \<longleftrightarrow> (\<exists>e \<in> set es. Content (snd e) = [])"
proof (induction es arbitrary: st)
  case Nil
  then show ?case by simp
next
  case (Cons e es)
  show ?case
  proof (cases "Content (snd e) = []")
    case True
    then show ?thesis by (simp add: combined_process_empty)
  next
    case False
    then obtain st' where "combined_process e st = Inr st'"
      using combined_process_panic[of e st] by (cases "combined_process e st") auto
    then show ?thesis using False Cons.IH[of st'] by simp
  qed
qed

lemma combined_loop_only_index_panic:
  "for_loop es combined_process st = Inl p \<Longrightarrow> p = IndexOutOfRange"
proof (induction es arbitrary: st)
  case Nil
  then show ?case by simp
next
  case (Cons e es)
  then show ?case
    using combined_process_panic[of e st]
    by (cases "combined_process e st") auto
qed

lemma combined_merge_round_robin:
  assumes "\<forall>d \<in> set graphDocs \<union> set traditionalDocs. Content d \<noteq> []" and "0 \<le> topK"
  shows "\<exists>out. combined_merge graphDocs traditionalDocs topK = Inr out
           \<and> elems out = annotate_from combined_annotate 0
               (round_robin (\<lambda>e. content_key (snd e)) (map (Pair ''graph_rag'') graphDocs)
                  (map (Pair ''traditional'') traditionalDocs) (nat topK))"
proof -
  let ?n = "if length graphDocs > length traditionalDocs
            then length graphDocs else length traditionalDocs"
  let ?es = "interleave (map (Pair ''graph_rag'') graphDocs)
               (map (Pair ''traditional'') traditionalDocs)"
  let ?key = "\<lambda>e :: string \<times> Document. content_key (snd e)"
  let ?sel = "dedup_by ?key [] ?es"
  have "for_loop [0..<?n] (combined_step graphDocs traditionalDocs) ([], [])
      = for_loop ?es combined_process ([], [])"
    by (simp add: combined_loop_interleave)
  also have "\<dots> = for_loop ?es (emit_step ?key combined_annotate) ([], [])"
  proof (rule for_loop_cong)
    fix e :: "string \<times> Document" and st assume "e \<in> set ?es"
    then have "snd e \<in> set graphDocs \<union> set traditionalDocs" by auto
    then have "Content (snd e) \<noteq> []" using assms(1) by blast
    then show "combined_process e st = emit_step ?key combined_annotate e st"
      by (rule combined_process_emit)
  qed
  also have "\<dots> = Inr (rev (map ?key ?sel) @ [],
                        [] @ annotate_from combined_annotate (length ([]::Document list)) ?sel)"
    by (rule emit_step_run)
  finally have loop: "for_loop [0..<?n] (combined_step graphDocs traditionalDocs) ([], [])
      = Inr (rev (map ?key ?sel), annotate_from combined_annotate 0 ?sel)"
    by simp
  obtain out where "truncate_to (annotate_from combined_annotate 0 ?sel) topK = Inr out"
    "elems out = take (nat topK) (annotate_from combined_annotate 0 ?sel)"
    using elems_truncate_to[OF assms(2)] by blast
  then show ?thesis
    unfolding combined_merge_def Let_def loop round_robin_def
    by (simp add: take_annotate_from)
qed

lemma combined_merge_collision: "combined_merge [graph_doc_1] [traditional_doc_1] 5 =
   Inr (Slice [graph_doc_1\<lparr>MetaData := Some [(''search_type'', VString ''graph_path''), (''search_source'', VString ''graph_rag'')]\<rparr>])"
  by (simp add: combined_merge_def combined_step_def add_combined_def contentHash_def hashString_def
      graph_doc_1_def traditional_doc_1_def min_int_def truncate_to_def appended_def show_hex_def show_base.simps digit_char_def)

lemma round_robin_by_origin: "round_robin origin_id [graph_doc_1] [traditional_doc_1] 5 = [graph_doc_1, traditional_doc_1]"
  by (simp add: round_robin_def origin_id_def meta_get_def graph_doc_1_def traditional_doc_1_def)

text \<open>
  Claim C1 as stated fails for the combined merge: two documents of different origin whose
  contents have the same length and first byte hash alike, and the second one is dropped
  although its origin id was never emitted.
\<close>

theorem combined_merge_counterexample:
  "\<not> claimed_combined_merge [graph_doc_1] [traditional_doc_1] 5"
  by (simp add: claimed_combined_merge_def combined_merge_collision round_robin_by_origin)

lemma hybrid_merge_example_2:
  "hybrid_merge sprint_strings [dual_doc_a, dual_doc_b] [vector_doc_a, vector_doc_b] 2 = Inr (Slice
     [dual_doc_a\<lparr>MetaData := Some [(''node_id'', VString ''n1''), (''relevance_score'', VFloat 0.9),
         (''search_method'', VString ''dual_level''), (''round_robin_order'', VInt 0), (''final_score'', VFloat 0.9)]\<rparr>,
      dual_doc_b\<lparr>MetaData := Some [(''node_id'', VString ''n2''), (''relevance_score'', VFloat 0.85),
         (''search_method'', VString ''dual_level''), (''round_robin_order'', VInt 1), (''final_score'', VFloat 0.85)]\<rparr>])"
  by (simp add: hybrid_merge_def hybrid_step_def add_doc_def dual_docID_def vector_docID_def meta_get_def
       dual_doc_a_def dual_doc_b_def vector_doc_a_def vector_doc_b_def sprint_strings_def emit_dual_def emit_vector_def
       dual_final_score_def vector_final_score_def truncate_to_def appended_def show_dec_def show_base.simps digit_char_def)

lemma hybrid_merge_example_5:
  "hybrid_merge sprint_strings [dual_doc_a, dual_doc_b] [vector_doc_a, vector_doc_b] 5 = Inr (Slice
     [dual_doc_a\<lparr>MetaData := Some [(''node_id'', VString ''n1''), (''relevance_score'', VFloat 0.9),
         (''search_method'', VString ''dual_level''), (''round_robin_order'', VInt 0), (''final_score'', VFloat 0.9)]\<rparr>,
      dual_doc_b\<lparr>MetaData := Some [(''node_id'', VString ''n2''), (''relevance_score'', VFloat 0.85),
         (''search_method'', VString ''dual_level''), (''round_robin_order'', VInt 1), (''final_score'', VFloat 0.85)]\<rparr>,
      vector_doc_b\<lparr>MetaData := Some [(''name'', VString ''Peanuts''), (''score'', VFloat 0.8),
         (''search_method'', VString ''vector_enhanced''), (''round_robin_order'', VInt 2), (''final_score'', VFloat 0.2)]\<rparr>])"
  by (simp add: hybrid_merge_def hybrid_step_def add_doc_def dual_docID_def vector_docID_def meta_get_def
       dual_doc_a_def dual_doc_b_def vector_doc_a_def vector_doc_b_def sprint_strings_def emit_dual_def emit_vector_def
       dual_final_score_def vector_final_score_def truncate_to_def appended_def show_dec_def show_base.simps digit_char_def)

lemma map_of_update_other:
  "k \<noteq> k' \<Longrightarrow> map_of (AList.update k v md) k' = map_of md k'"
  by (simp add: update_conv')

lemma map_of_update_same: "map_of (AList.update k v md) k = Some v"
  by (simp add: update_conv')

lemma nth_annotate_from:
  "k < length es \<Longrightarrow> annotate_from ann j es ! k = ann (j + k) (es ! k)"
proof (induction es arbitrary: j k)
  case Nil
  then show ?case by simp
next
  case (Cons e es)
  then show ?case by (cases k) auto
qed

lemma hybrid_annotate_final_score:
  assumes "MetaData (snd (snd e)) \<noteq> None"
  shows "meta_get (hybrid_annotate j e) ''final_score'' = Some (final_score_spec e)"
proof -
  obtain src i d where e: "e = (src, i, d)" by (cases e)
  from assms obtain md where md: "MetaData d = Some md" by (auto simp: e)
  show ?thesis
  proof (cases src)
    case DualLevel
    then show ?thesis
      by (simp add: e md hybrid_annotate_def meta_get_def metadata_of_def emit_dual_def
          final_score_spec_def dual_final_score_def map_of_update_same map_of_update_other)
  next
    case VectorEnhanced
    then show ?thesis
      by (simp add: e md hybrid_annotate_def meta_get_def metadata_of_def emit_vector_def
          final_score_spec_def vector_final_score_def map_of_update_same map_of_update_other
          max_def
          split: option.splits any.splits)
  qed
qed

lemma hybrid_annotate_method:
  "meta_get (hybrid_annotate j e) ''search_method'' = Some (VString (method_name (fst e)))"
proof -
  obtain src i d where e: "e = (src, i, d)" by (cases e)
  show ?thesis
    by (cases src)
       (simp_all add: e hybrid_annotate_def meta_get_def emit_dual_def emit_vector_def
          method_name_def map_of_update_same map_of_update_other Let_def)
qed

lemma hybrid_annotate_origin:
  assumes "MetaData (snd (snd e)) \<noteq> None"
  shows "origin_id (hybrid_annotate j e) = origin_id (snd (snd e))"
proof -
  obtain src i d where e: "e = (src, i, d)" by (cases e)
  from assms obtain md where md: "MetaData d = Some md" by (auto simp: e)
  show ?thesis
    by (cases src)
       (simp_all add: e md origin_id_def hybrid_annotate_def meta_get_def metadata_of_def
          emit_dual_def emit_vector_def map_of_update_other Let_def)
qed

lemma entry_docID_origin:
  "origin_id (snd (snd e)) = Some v \<Longrightarrow> entry_docID sprintv e = sprintv v"
proof -
  assume a: "origin_id (snd (snd e)) = Some v"
  obtain src i d where e: "e = (src, i, d)" by (cases e)
  show ?thesis using a
    by (cases src) (simp_all add: e entry_docID_def dual_docID_def vector_docID_def origin_id_def)
qed

lemma distinct_map_filter_key:
  assumes "distinct (map key xs)" and "\<And>x v. x \<in> set xs \<Longrightarrow> f x = Some v \<Longrightarrow> key x = g v"
  shows "distinct (List.map_filter f xs)"
  using assms
proof (induction xs)
  case Nil
  then show ?case by (simp add: List.map_filter_simps)
next
  case (Cons x xs)
  have IH: "distinct (List.map_filter f xs)" using Cons by auto
  show ?case
  proof (cases "f x")
    case None
    then show ?thesis using IH by (simp add: List.map_filter_simps)
  next
    case (Some v)
    have "v \<notin> set (List.map_filter f xs)"
    proof
      assume "v \<in> set (List.map_filter f xs)"
      then obtain y where y: "y \<in> set xs" "f y = Some v"
        by (auto simp: List.map_filter_def)
      then have "key y = g v" using Cons.prems(2) by auto
      moreover have "key x = g v" using Cons.prems(2) Some by auto
      ultimately show False using Cons.prems(1) y(1) by (auto simp: image_iff)
    qed
    then show ?thesis using IH Some by (simp add: List.map_filter_simps)
  qed
qed

lemma set_take_subset_mem: "x \<in> set (take k xs) \<Longrightarrow> x \<in> set xs"
  by (rule in_set_takeD)

lemma dedup_by_subset: "set (dedup_by key seen xs) \<subseteq> set xs"
  by (induction xs arbitrary: seen) auto

lemma round_robin_subset: "set (round_robin key xs ys k) \<subseteq> set xs \<union> set ys"
  using dedup_by_subset[of key "[]" "interleave xs ys"]
  by (auto simp: round_robin_def dest: in_set_takeD)

lemma round_robin_distinct: "distinct (map key (round_robin key xs ys k))"
  unfolding round_robin_def take_map[symmetric]
  by (rule distinct_take[OF dedup_by_distinct])

lemma map_filter_annotate_from:
  assumes "\<And>j e. e \<in> set es \<Longrightarrow> f (ann j e) = g e"
  shows "List.map_filter f (annotate_from ann j es) = List.map_filter g es"
  using assms
  by (induction es arbitrary: j) (auto simp: List.map_filter_simps split: option.splits)

section \<open>Claims about the merges\<close>

lemma map_annotate_from:
  assumes "\<And>j e. e \<in> set es \<Longrightarrow> f (ann j e) = g e"
  shows "map f (annotate_from ann j es) = map g es"
  using assms by (induction es arbitrary: j) auto

lemma content_key_annotate: "content_key (combined_annotate j e) = content_key (snd e)"
  by (simp add: content_key_def contentHash_def combined_annotate_def)

text \<open>
  Claim C1, as amended. For every \<open>topK \<ge> 0\<close>: the \<open>HybridSearch\<close> merge of documents
  with non-nil metadata returns the round-robin interleaving of the two streams (dual-level
  first at every position), keeping the first document of every document id (the printed
  \<open>node_id\<close>, or \<open>dual_i\<close> / \<open>vector_i\<close> for a document without one), cut to the first
  \<open>topK\<close>; the ids of the emitted documents are pairwise distinct and no two of them carry
  the same \<open>node_id\<close>. The combined-strategy merge of documents with non-empty content
  returns the round-robin interleaving (GraphRAG first) that keeps the first document of
  every content-prefix hash, cut to \<open>topK\<close>; it deduplicates by that hash and not by origin
  id, and the hashes of the emitted documents are pairwise distinct.
\<close>

theorem round_robin_merges:
  assumes "0 \<le> topK"
  shows "((\<forall>d \<in> set dualDocs \<union> set vectorDocs. MetaData d \<noteq> None) \<longrightarrow>
           (\<exists>out. hybrid_merge sprintv dualDocs vectorDocs topK = Inr out
              \<and> elems out = annotate_from hybrid_annotate 0
                  (round_robin (entry_docID sprintv) (tagged DualLevel dualDocs)
                     (tagged VectorEnhanced vectorDocs) (nat topK))
              \<and> distinct (map (entry_docID sprintv)
                  (round_robin (entry_docID sprintv) (tagged DualLevel dualDocs)
                     (tagged VectorEnhanced vectorDocs) (nat topK)))
              \<and> distinct (List.map_filter origin_id (elems out))))
       \<and> ((\<forall>d \<in> set graphDocs \<union> set traditionalDocs. Content d \<noteq> []) \<longrightarrow>
           (\<exists>out. combined_merge graphDocs traditionalDocs topK = Inr out
              \<and> elems out = annotate_from combined_annotate 0
                  (round_robin (\<lambda>e. content_key (snd e)) (map (Pair ''graph_rag'') graphDocs)
                     (map (Pair ''traditional'') traditionalDocs) (nat topK))
              \<and> distinct (map content_key (elems out))))"
proof (intro conjI impI)
  assume nn: "\<forall>d \<in> set dualDocs \<union> set vectorDocs. MetaData d \<noteq> None"
  let ?sel = "round_robin (entry_docID sprintv) (tagged DualLevel dualDocs)
                (tagged VectorEnhanced vectorDocs) (nat topK)"
  from hybrid_merge_round_robin[OF nn assms, of sprintv]
  obtain out where out: "hybrid_merge sprintv dualDocs vectorDocs topK = Inr out"
      "elems out = annotate_from hybrid_annotate 0 ?sel"
    by (elim exE conjE)
  have d: "distinct (map (entry_docID sprintv) ?sel)" by (rule round_robin_distinct)
  have mem: "\<And>e. e \<in> set ?sel \<Longrightarrow> MetaData (snd (snd e)) \<noteq> None"
  proof -
    fix e assume "e \<in> set ?sel"
    then have "e \<in> set (tagged DualLevel dualDocs) \<union> set (tagged VectorEnhanced vectorDocs)"
      by (rule subsetD[OF round_robin_subset])
    then have "snd (snd e) \<in> set dualDocs \<union> set vectorDocs"
      using set_tagged[of e] by auto
    then show "MetaData (snd (snd e)) \<noteq> None" using nn by blast
  qed
  have "List.map_filter origin_id (elems out)
      = List.map_filter (\<lambda>e. origin_id (snd (snd e))) ?sel"
    unfolding out(2)
  proof (rule map_filter_annotate_from)
    fix j e assume "e \<in> set ?sel"
    then show "origin_id (hybrid_annotate j e) = origin_id (snd (snd e))"
      by (rule hybrid_annotate_origin[OF mem])
  qed
  moreover have "distinct (List.map_filter (\<lambda>e. origin_id (snd (snd e))) ?sel)"
  proof (rule distinct_map_filter_key[OF d, where g = sprintv])
    fix x :: entry and v assume "origin_id (snd (snd x)) = Some v"
    then show "entry_docID sprintv x = sprintv v" by (rule entry_docID_origin)
  qed
  ultimately have dm: "distinct (List.map_filter origin_id (elems out))" by simp
  show "\<exists>out. hybrid_merge sprintv dualDocs vectorDocs topK = Inr out
      \<and> elems out = annotate_from hybrid_annotate 0 ?sel
      \<and> distinct (map (entry_docID sprintv) ?sel)
      \<and> distinct (List.map_filter origin_id (elems out))"
    by (rule exI[of _ out]) (intro conjI out d dm)
next
  assume ne: "\<forall>d \<in> set graphDocs \<union> set traditionalDocs. Content d \<noteq> []"
  let ?sel = "round_robin (\<lambda>e. content_key (snd e)) (map (Pair ''graph_rag'') graphDocs)
                (map (Pair ''traditional'') traditionalDocs) (nat topK)"
  from combined_merge_round_robin[OF ne assms]
  obtain out where out: "combined_merge graphDocs traditionalDocs topK = Inr out"
      "elems out = annotate_from combined_annotate 0 ?sel"
    by (elim exE conjE)
  have "map content_key (elems out) = map (\<lambda>e. content_key (snd e)) ?sel"
    unfolding out(2) by (rule map_annotate_from) (rule content_key_annotate)
  then have dk: "distinct (map content_key (elems out))"
    by (simp only: round_robin_distinct)
  show "\<exists>out. combined_merge graphDocs traditionalDocs topK = Inr out
      \<and> elems out = annotate_from combined_annotate 0 ?sel
      \<and> distinct (map content_key (elems out))"
    by (rule exI[of _ out]) (intro conjI out dk)
qed

text \<open>
  Claim C7. Every document emitted by the \<open>HybridSearch\<close> merge stems from one of the two
  streams; if it came from dual-level retrieval its \<open>final_score\<close> is its \<open>relevance_score\<close>
  unchanged (0 if it has none), and if it came from vector-enhanced retrieval its
  \<open>final_score\<close> is \<open>max 0 (1 - score)\<close> for a float \<open>score\<close> and 0 when the score is
  absent or not a float.
\<close>

theorem hybrid_final_score:
  fixes sprintv :: "any \<Rightarrow> string" and dualDocs vectorDocs :: "Document list" and topK :: int
  assumes "\<forall>d \<in> set dualDocs \<union> set vectorDocs. MetaData d \<noteq> None" and "0 \<le> topK"
  defines "sel \<equiv> round_robin (entry_docID sprintv) (tagged DualLevel dualDocs)
                    (tagged VectorEnhanced vectorDocs) (nat topK)"
  shows "\<exists>out. hybrid_merge sprintv dualDocs vectorDocs topK = Inr out
           \<and> length (elems out) = length sel
           \<and> set sel \<subseteq> set (tagged DualLevel dualDocs) \<union> set (tagged VectorEnhanced vectorDocs)
           \<and> (\<forall>j < length sel.
                 meta_get (elems out ! j) ''search_method''
                   = Some (VString (method_name (fst (sel ! j))))
               \<and> meta_get (elems out ! j) ''final_score'' = Some (final_score_spec (sel ! j)))"
proof -
  obtain out where out: "hybrid_merge sprintv dualDocs vectorDocs topK = Inr out"
      "elems out = annotate_from hybrid_annotate 0 sel"
    using hybrid_merge_round_robin[OF assms(1,2)] unfolding sel_def by blast
  have sub: "set sel \<subseteq> set (tagged DualLevel dualDocs) \<union> set (tagged VectorEnhanced vectorDocs)"
    unfolding sel_def by (rule round_robin_subset)
  have "\<forall>j < length sel.
          meta_get (elems out ! j) ''search_method'' = Some (VString (method_name (fst (sel ! j))))
        \<and> meta_get (elems out ! j) ''final_score'' = Some (final_score_spec (sel ! j))"
  proof (intro allI impI)
    fix j assume j: "j < length sel"
    then have "sel ! j \<in> set (tagged DualLevel dualDocs) \<union> set (tagged VectorEnhanced vectorDocs)"
      using sub nth_mem by blast
    then have "snd (snd (sel ! j)) \<in> set dualDocs \<union> set vectorDocs"
      using set_tagged[of "sel ! j"] by auto
    then have "MetaData (snd (snd (sel ! j))) \<noteq> None" using assms(1) by blast
    then show "meta_get (elems out ! j) ''search_method''
                 = Some (VString (method_name (fst (sel ! j))))
             \<and> meta_get (elems out ! j) ''final_score'' = Some (final_score_spec (sel ! j))"
      using j by (simp add: out(2) nth_annotate_from hybrid_annotate_method
          hybrid_annotate_final_score)
  qed
  with out sub show ?thesis by auto
qed

lemma combined_merge_panics_iff:
  "combined_merge graphDocs traditionalDocs topK = Inl IndexOutOfRange
      \<longleftrightarrow> (\<exists>d \<in> set graphDocs \<union> set traditionalDocs. Content d = [])"
proof -
  let ?n = "if length graphDocs > length traditionalDocs
            then length graphDocs else length traditionalDocs"
  let ?es = "interleave (map (Pair ''graph_rag'') graphDocs)
               (map (Pair ''traditional'') traditionalDocs)"
  have loop: "for_loop [0..<?n] (combined_step graphDocs traditionalDocs) ([], [])
      = for_loop ?es combined_process ([], [])"
    by (simp add: combined_loop_interleave)
  have ex: "(\<exists>e \<in> set ?es. Content (snd e) = [])
      \<longleftrightarrow> (\<exists>d \<in> set graphDocs \<union> set traditionalDocs. Content d = [])"
    by (simp add: bex_Un)
  show "combined_merge graphDocs traditionalDocs topK = Inl IndexOutOfRange
      \<longleftrightarrow> (\<exists>d \<in> set graphDocs \<union> set traditionalDocs. Content d = [])"
  proof (cases "for_loop ?es combined_process ([], [])")
    case (Inl p)
    then have "p = IndexOutOfRange" by (rule combined_loop_only_index_panic)
    then show ?thesis
      using Inl combined_loop_panics[of ?es "([], [])"] ex
      unfolding combined_merge_def Let_def loop by simp
  next
    case (Inr st)
    then have "\<not> (\<exists>e \<in> set ?es. Content (snd e) = [])"
      using combined_loop_panics[of ?es "([], [])"] by simp
    moreover have "combined_merge graphDocs traditionalDocs topK \<noteq> Inl IndexOutOfRange"
      unfolding combined_merge_def Let_def loop Inr
      by (cases st) (simp add: truncate_to_def)
    ultimately show ?thesis using ex by simp
  qed
qed

lemma combined_merge_empty_doc: "combined_merge [empty_doc] [] 1 = Inl IndexOutOfRange"
  by (simp add: combined_merge_def combined_step_def add_combined_def contentHash_def
      hashString_def empty_doc_def min_int_def)

text \<open>
  Claim C9. The combined merge fails with an index-out-of-range panic exactly when one of
  the documents of either retrieval has empty content: some input makes it fail, and with
  non-empty contents throughout that panic cannot occur. The same holds for
  \<open>executeCombinedSearch\<close> on the documents its two retrieval calls return.
\<close>

theorem combined_merge_index_panic:
  "(combined_merge graphDocs traditionalDocs topK = Inl IndexOutOfRange
      \<longleftrightarrow> (\<exists>d \<in> set graphDocs \<union> set traditionalDocs. Content d = []))
   \<and> (hybrid_search r n query (if go_div topK 2 < 1 then 1 else go_div topK 2) = Inr tr
        \<and> graph_search r (n + 1) query
             (topK - (if go_div topK 2 < 1 then 1 else go_div topK 2)) = Inr gr
      \<longrightarrow> (snd (executeCombinedSearch r n query topK) = Inl IndexOutOfRange
            \<longleftrightarrow> (\<exists>d \<in> set (docs_or_empty gr) \<union> set (docs_or_empty tr). Content d = [])))
   \<and> (\<exists>g t k. combined_merge g t k = Inl IndexOutOfRange)"
proof (intro conjI impI)
  show "combined_merge graphDocs traditionalDocs topK = Inl IndexOutOfRange
      \<longleftrightarrow> (\<exists>d \<in> set graphDocs \<union> set traditionalDocs. Content d = [])"
    by (rule combined_merge_panics_iff)
next
  assume a: "hybrid_search r n query (if go_div topK 2 < 1 then 1 else go_div topK 2) = Inr tr
        \<and> graph_search r (n + 1) query
             (topK - (if go_div topK 2 < 1 then 1 else go_div topK 2)) = Inr gr"
  have "snd (executeCombinedSearch r n query topK) = Inl IndexOutOfRange
      \<longleftrightarrow> combined_merge (docs_or_empty gr) (docs_or_empty tr) topK = Inl IndexOutOfRange"
    using a by (simp add: executeCombinedSearch_def Let_def split: sum.splits)
  then show "snd (executeCombinedSearch r n query topK) = Inl IndexOutOfRange
      \<longleftrightarrow> (\<exists>d \<in> set (docs_or_empty gr) \<union> set (docs_or_empty tr). Content d = [])"
    by (simp only: combined_merge_panics_iff)
next
  show "\<exists>g t k. combined_merge g t k = Inl IndexOutOfRange"
    using combined_merge_empty_doc by blast
qed

theorem combined_merge_index_panic_witness:
  "combined_merge [graph_doc_1] [empty_doc] 5 = Inl IndexOutOfRange
   \<and> combined_merge [graph_doc_1] [traditional_doc_1] 5 \<noteq> Inl IndexOutOfRange"
  using combined_merge_index_panic [of "[graph_doc_1]" "[empty_doc]" 5]
    combined_merge_index_panic [of "[graph_doc_1]" "[traditional_doc_1]" 5]
  by (simp add: graph_doc_1_def empty_doc_def traditional_doc_1_def)

lemma round_robin_example:
  "round_robin (entry_docID sprint_strings) (tagged DualLevel [dual_doc_a, dual_doc_b])
     (tagged VectorEnhanced [vector_doc_a, vector_doc_b]) (nat 5)
   = [(DualLevel, 0, dual_doc_a), (DualLevel, 1, dual_doc_b), (VectorEnhanced, 1, vector_doc_b)]"
  by (simp add: round_robin_def tagged_def positioned_def entry_docID_def dual_docID_def
      vector_docID_def meta_get_def sprint_strings_def dual_doc_a_def dual_doc_b_def
      vector_doc_a_def vector_doc_b_def show_dec_def show_base.simps digit_char_def)

lemma round_robin_combined_example:
  "round_robin (\<lambda>e. content_key (snd e)) (map (Pair ''graph_rag'') [graph_doc_1])
     (map (Pair ''traditional'') [dual_doc_a, traditional_doc_1]) (nat 5)
   = [(''graph_rag'', graph_doc_1), (''traditional'', dual_doc_a)]"
  by (simp add: round_robin_def content_key_def contentHash_def hashString_def min_int_def
      graph_doc_1_def dual_doc_a_def traditional_doc_1_def show_hex_def show_base.simps
      digit_char_def length_numeral del: list.size)

lemma example_docs_metadata:
  "\<forall>d \<in> set [dual_doc_a, dual_doc_b] \<union> set [vector_doc_a, vector_doc_b]. MetaData d \<noteq> None"
  by (simp add: dual_doc_a_def dual_doc_b_def vector_doc_a_def vector_doc_b_def)

lemma example_docs_content:
  "\<forall>d \<in> set [graph_doc_1] \<union> set [dual_doc_a, traditional_doc_1]. Content d \<noteq> []"
  by (simp add: dual_doc_a_def graph_doc_1_def traditional_doc_1_def)

theorem round_robin_merges_witness:
  "(\<exists>out. hybrid_merge sprint_strings [dual_doc_a, dual_doc_b] [vector_doc_a, vector_doc_b] 5
            = Inr out
         \<and> map Content (elems out) = [''Kung Pao Chicken'', ''Chicken breast'', ''Peanuts''])
   \<and> (\<exists>out. combined_merge [graph_doc_1] [dual_doc_a, traditional_doc_1] 5 = Inr out
         \<and> map Content (elems out) = [''Chicken --REQUIRES--> Salt'', ''Kung Pao Chicken''])"
proof -
  have z: "(0::int) \<le> 5" by simp
  note m = round_robin_merges [OF z, of "[dual_doc_a, dual_doc_b]" "[vector_doc_a, vector_doc_b]"
      sprint_strings "[graph_doc_1]" "[dual_doc_a, traditional_doc_1]",
      unfolded round_robin_example round_robin_combined_example]
  from m[THEN conjunct1, THEN mp, OF example_docs_metadata]
  obtain out1 where
    h: "hybrid_merge sprint_strings [dual_doc_a, dual_doc_b] [vector_doc_a, vector_doc_b] 5
          = Inr out1"
       "elems out1 = annotate_from hybrid_annotate 0
          [(DualLevel, 0, dual_doc_a), (DualLevel, 1, dual_doc_b),
           (VectorEnhanced, 1, vector_doc_b)]"
    by (elim exE conjE)
  from m[THEN conjunct2, THEN mp, OF example_docs_content]
  obtain out2 where
    c: "combined_merge [graph_doc_1] [dual_doc_a, traditional_doc_1] 5 = Inr out2"
       "elems out2 = annotate_from combined_annotate 0
          [(''graph_rag'', graph_doc_1), (''traditional'', dual_doc_a)]"
    by (elim exE conjE)
  have "map Content (elems out1) = [''Kung Pao Chicken'', ''Chicken breast'', ''Peanuts'']"
    by (simp add: h(2) hybrid_annotate_def dual_doc_a_def dual_doc_b_def vector_doc_b_def)
  moreover have "map Content (elems out2) = [''Chicken --REQUIRES--> Salt'', ''Kung Pao Chicken'']"
    by (simp add: c(2) combined_annotate_def graph_doc_1_def dual_doc_a_def)
  ultimately show ?thesis using h(1) c(1) by simp
qed

theorem hybrid_final_score_witness:
  "\<exists>out. hybrid_merge sprint_strings [dual_doc_a, dual_doc_b] [vector_doc_a, vector_doc_b] 5
            = Inr out
        \<and> meta_get (elems out ! 0) ''final_score'' = Some (VFloat 0.9)
        \<and> meta_get (elems out ! 2) ''search_method'' = Some (VString ''vector_enhanced'')
        \<and> meta_get (elems out ! 2) ''final_score'' = Some (VFloat 0.2)"
proof -
  have z: "(0::int) \<le> 5" by simp
  from hybrid_final_score [OF example_docs_metadata z, of sprint_strings,
      unfolded round_robin_example]
  obtain out where
    h: "hybrid_merge sprint_strings [dual_doc_a, dual_doc_b] [vector_doc_a, vector_doc_b] 5
          = Inr out"
    and f: "\<forall>j < length [(DualLevel, 0::nat, dual_doc_a), (DualLevel, 1, dual_doc_b),
                          (VectorEnhanced, 1, vector_doc_b)].
                 meta_get (elems out ! j) ''search_method''
                   = Some (VString (method_name (fst ([(DualLevel, 0::nat, dual_doc_a),
                        (DualLevel, 1, dual_doc_b), (VectorEnhanced, 1, vector_doc_b)] ! j))))
               \<and> meta_get (elems out ! j) ''final_score''
                   = Some (final_score_spec ([(DualLevel, 0, dual_doc_a),
                        (DualLevel, 1, dual_doc_b), (VectorEnhanced, 1, vector_doc_b)] ! j))"
    by (elim exE conjE)
  have "meta_get (elems out ! 0) ''final_score'' = Some (VFloat 0.9)"
    using f[rule_format, of 0]
    by (simp add: final_score_spec_def meta_get_def dual_doc_a_def)
  moreover have "meta_get (elems out ! 2) ''search_method'' = Some (VString ''vector_enhanced'')
      \<and> meta_get (elems out ! 2) ''final_score'' = Some (VFloat 0.2)"
    using f[rule_format, of 2]
    by (simp add: final_score_spec_def method_name_def meta_get_def vector_doc_b_def)
  ultimately show ?thesis using h by simp
qed

section \<open>Query understanding and routing\<close>

lemma hits_reasoning: "count_hits query_reasoning complexityKeywords = 5"
  by (simp add: count_hits_def query_reasoning_def complexityKeywords_def)

lemma strategy_reasoning: "RecommendedStrategy (ruleBasedAnalysis query_reasoning) = GraphRAG"
  by (simp add: ruleBasedAnalysis_def Let_def hits_reasoning length_complexityKeywords)

lemma strategy_chicken: "RecommendedStrategy (ruleBasedAnalysis query_chicken) = HybridTraditional"
  by (simp add: analysis_chicken)

subsection \<open>The prompt template\<close>

lemma FString_scan_plain:
  "list_all (\<lambda>c. c \<noteq> CHR ''{'' \<and> c \<noteq> CHR ''}'') plain
   \<Longrightarrow> FString_scan vs buf None (plain @ rest) = FString_scan vs (buf @ plain) None rest"
  by (induction plain arbitrary: buf) simp_all

lemma FString_scan_open:
  "s \<noteq> [] \<Longrightarrow> hd s \<noteq> CHR ''{''
   \<Longrightarrow> FString_scan vs buf None (CHR ''{'' # s) = FString_scan vs buf (Some []) s"
  by (cases s) simp_all

lemma FString_scan_field:
  "list_all (\<lambda>c. c \<noteq> CHR ''}'') inner
   \<Longrightarrow> FString_scan vs buf (Some field) (inner @ CHR ''}'' # rest)
       = (case map_of vs (field_name (field @ inner)) of
            None \<Rightarrow> Inl (KeyError (field_name (field @ inner)))
          | Some v \<Rightarrow> FString_scan vs (buf @ v) None rest)"
  by (induction inner arbitrary: field) (simp_all split: option.splits)

lemma system_prompt_plain:
  "list_all (\<lambda>c. c \<noteq> CHR ''{'' \<and> c \<noteq> CHR ''}'') system_prompt"
  by (simp add: system_prompt_def)

lemma prompt_task_plain:
  "list_all (\<lambda>c. c \<noteq> CHR ''{'' \<and> c \<noteq> CHR ''}'') prompt_task"
  by (simp add: prompt_task_def)

lemma prompt_query_types_plain:
  "list_all (\<lambda>c. c \<noteq> CHR ''{'' \<and> c \<noteq> CHR ''}'') prompt_query_types"
  by (simp add: prompt_query_types_def)

lemma prompt_items_and_example_plain:
  "list_all (\<lambda>c. c \<noteq> CHR ''{'' \<and> c \<noteq> CHR ''}'') prompt_items_and_example"
  by (simp add: prompt_items_and_example_def)

lemma prompt_json_example_inner: "list_all (\<lambda>c. c \<noteq> CHR ''}'') prompt_json_example"
  by (simp add: prompt_json_example_def)

lemma prompt_json_example_head:
  "prompt_json_example \<noteq> [] \<and> hd prompt_json_example \<noteq> CHR ''{''"
  by (simp add: prompt_json_example_def)

lemma prompt_json_example_name: "field_name prompt_json_example = json_example_name"
  by (simp add: field_name_def prompt_json_example_def json_example_name_def)

lemma system_prompt_formats: "FString_format system_prompt vs = Inr system_prompt"
  using FString_scan_plain[OF system_prompt_plain, of vs "[]" "[]"]
  by (simp add: FString_format_def)

lemma user_prompt_fails:
  "FString_format user_prompt [(''query'', query)] = Inl (KeyError json_example_name)"
proof -
  let ?vs = "[(''query'', query)]"
  let ?tail = "CHR ''{'' # prompt_json_example @ ''}''"
  have "FString_format user_prompt ?vs
          = FString_scan ?vs prompt_task None
              (''{query}'' @ prompt_query_types @ prompt_items_and_example @ ?tail)"
    using FString_scan_plain[OF prompt_task_plain, of ?vs "[]"]
    by (simp add: FString_format_def user_prompt_def)
  also have "\<dots> = FString_scan ?vs (prompt_task @ query) None
                     (prompt_query_types @ prompt_items_and_example @ ?tail)"
    by (simp add: field_name_def)
  also have "\<dots> = FString_scan ?vs (prompt_task @ query @ prompt_query_types) None
                     (prompt_items_and_example @ ?tail)"
    using FString_scan_plain[OF prompt_query_types_plain, of ?vs "prompt_task @ query"]
    by simp
  also have "\<dots> = FString_scan ?vs
                     (prompt_task @ query @ prompt_query_types @ prompt_items_and_example)
                     None ?tail"
    using FString_scan_plain[OF prompt_items_and_example_plain, of ?vs
        "prompt_task @ query @ prompt_query_types"]
    by simp
  also have "\<dots> = FString_scan ?vs
                     (prompt_task @ query @ prompt_query_types @ prompt_items_and_example)
                     (Some []) (prompt_json_example @ ''}'')"
    using prompt_json_example_head by (intro FString_scan_open) simp_all
  also have "\<dots> = Inl (KeyError json_example_name)"
    using FString_scan_field[OF prompt_json_example_inner, of ?vs _ "[]" "[]"]
    by (simp add: prompt_json_example_name json_example_name_def)
  finally show ?thesis .
qed

lemma template_Format_fails:
  "template_Format describe query = Inl (describe (KeyError json_example_name))"
  by (simp add: template_Format_def system_prompt_formats user_prompt_fails)

text \<open>
  Claim C2. The user message of the prompt ends in a JSON example whose braces are not
  doubled, so formatting it fails on the field that the example opens, whatever the query:
  \<open>UnderstandGraphQuery\<close> returns the template error and no plan for every query and every
  LLM client, which is never called.
\<close>

theorem UnderstandGraphQuery_template_error:
  "UnderstandGraphQuery env query
     = Inl (template_failed @ format_Error env (KeyError json_example_name))
   \<and> \<not> claimed_valid_plan env query"
  by (simp add: UnderstandGraphQuery_def claimed_valid_plan_def template_Format_fails)

theorem UnderstandGraphQuery_template_error_witness:
  "UnderstandGraphQuery timeout_env query_chicken
     = Inl (template_failed @ format_Error timeout_env (KeyError json_example_name))
   \<and> \<not> claimed_valid_plan timeout_env query_chicken"
  using UnderstandGraphQuery_template_error [of timeout_env query_chicken] by simp

subsection \<open>Routing\<close>

lemma RouteQuery_unfold:
  "RouteQuery r st query topK =
     (let analysis = ruleBasedAnalysis query;
          st' = updateRouteStats (RecommendedStrategy analysis) st;
          d = dispatch r (RecommendedStrategy analysis) query topK
      in case snd d of
           Inl p \<Rightarrow> \<lparr>stats_after = st', calls_made = fst d, returned = Inl p\<rparr>
         | Inr (documents, None) \<Rightarrow>
             \<lparr>stats_after = st', calls_made = fst d,
              returned = Inr (postProcessResults documents analysis, analysis, None)\<rparr>
         | Inr (documents, Some err) \<Rightarrow>
             (case hybrid_search r (length (fst d)) query topK of
                Inl p \<Rightarrow>
                  \<lparr>stats_after = st', calls_made = fst d @ [HybridSearchCall query topK],
                   returned = Inl p\<rparr>
              | Inr (documents', _) \<Rightarrow>
                  \<lparr>stats_after = st', calls_made = fst d @ [HybridSearchCall query topK],
                   returned = Inr (postProcessResults documents' analysis, analysis, None)\<rparr>))"
proof (cases "dispatch r (RecommendedStrategy (ruleBasedAnalysis query)) query topK")
  case (Pair calls res)
  then show ?thesis
    by (simp add: RouteQuery_def AnalyzeQuery_def Let_def
        split: sum.splits prod.splits option.splits)
qed






text \<open>
  Claim C5 as stated fails: without a graph connection, a query routed to hybrid retrieval
  whose two retrievals find nothing gets back a nil document list.
\<close>

theorem nil_list_counterexample:
  "\<not> returns_non_nil_list (RouteQuery empty_stores new_routeStats query_chicken 5)"
  by (simp add: returns_non_nil_list_def RouteQuery_unfold Let_def strategy_chicken dispatch_def
      empty_stores_def system_retrievers_def HybridSearch_def hybrid_merge_def docs_or_empty_def
      truncate_to_def appended_def postProcessResults_def)

text \<open>
  Claim C5, as amended. With a nil driver \<open>GraphRAGSearch\<close> returns an empty, non-nil list
  and a nil error for every query and \<open>topK\<close>; and \<open>RouteQuery\<close>, for a query that the analysis
  routes to graph retrieval, then returns that empty non-nil list with the query's analysis
  and a nil error.
\<close>

theorem no_graph_connection:
  "GraphRAGSearch None env query topK = Inr (Slice [], None)
   \<and> (graph_search r = (\<lambda>n. GraphRAGSearch None env)
        \<and> RecommendedStrategy (ruleBasedAnalysis query) = GraphRAG
      \<longrightarrow> returned (RouteQuery r st query topK) = Inr (Slice [], ruleBasedAnalysis query, None)
          \<and> returns_non_nil_list (RouteQuery r st query topK))"
  by (simp add: GraphRAGSearch_def RouteQuery_unfold Let_def dispatch_def strategies_distinct
      strategies_distinct[symmetric] returns_non_nil_list_def postProcessResults_def)

theorem no_graph_connection_witness:
  "GraphRAGSearch None timeout_env query_reasoning 5 = Inr (Slice [], None)
   \<and> returned (RouteQuery empty_stores new_routeStats query_reasoning 5)
       = Inr (Slice [], ruleBasedAnalysis query_reasoning, None)"
proof -
  have g: "graph_search empty_stores = (\<lambda>n. GraphRAGSearch None timeout_env)"
    by (simp add: empty_stores_def system_retrievers_def)
  from no_graph_connection [of timeout_env query_reasoning 5 empty_stores new_routeStats]
  show ?thesis using g strategy_reasoning by simp
qed

section \<open>VectorSearchEnhanced and the neighbour prefix\<close>

lemma grown_nil: "grown nil_slice"
  by (simp add: grown_def nil_slice_def)

lemma grown_append_one: "grown s \<Longrightarrow> grown (append_one s x)"
  by (auto simp: grown_def append_one_def)

lemma grown_keep_name: "grown s \<Longrightarrow> grown (keep_name name s)"
  by (auto simp: keep_name_def grown_append_one split: option.splits any.splits)

lemma grown_fold: "grown s \<Longrightarrow> grown (fold keep_name records s)"
  by (induction records arbitrary: s) (auto simp: grown_keep_name)

lemma getNodeNeighbors_grown:
  "getNodeNeighbors (Some run) nodeID k = Inr (neighbors, err) \<Longrightarrow> grown neighbors"
  by (auto simp: getNodeNeighbors_def grown_nil grown_fold split: sum.splits)

lemma getNodeNeighbors_connected:
  "\<exists>neighbors err. getNodeNeighbors (Some run) nodeID k = Inr (neighbors, err)"
  by (auto simp: getNodeNeighbors_def split: sum.splits)

lemma enhanced_content_panics:
  assumes "grown neighbors"
  shows "enhanced_content entity neighbors = Inl SliceBoundsOutOfRange
           \<longleftrightarrow> length (items neighbors) = 1 \<or> length (items neighbors) = 2"
    and "length (items neighbors) \<noteq> 1 \<Longrightarrow> length (items neighbors) \<noteq> 2
           \<Longrightarrow> \<exists>content. enhanced_content entity neighbors = Inr content"
proof -
  let ?n = "length (items neighbors)"
  consider "?n = 0" | "?n = 1 \<or> ?n = 2" | "3 \<le> ?n" by arith
  then have "(enhanced_content entity neighbors = Inl SliceBoundsOutOfRange \<longleftrightarrow> ?n = 1 \<or> ?n = 2)
      \<and> (?n \<noteq> 1 \<longrightarrow> ?n \<noteq> 2 \<longrightarrow> (\<exists>content. enhanced_content entity neighbors = Inr content))"
  proof cases
    case 1
    then show ?thesis by (simp add: enhanced_content_def)
  next
    case 2
    then have "capacity neighbors < 3" using assms by (auto simp: grown_def)
    then show ?thesis using 2 by (auto simp: enhanced_content_def slice_to_def)
  next
    case 3
    then have "3 \<le> capacity neighbors" using assms by (simp add: grown_def)
    then show ?thesis using 3 by (auto simp: enhanced_content_def slice_to_def)
  qed
  then show "enhanced_content entity neighbors = Inl SliceBoundsOutOfRange
           \<longleftrightarrow> length (items neighbors) = 1 \<or> length (items neighbors) = 2"
    and "length (items neighbors) \<noteq> 1 \<Longrightarrow> length (items neighbors) \<noteq> 2
           \<Longrightarrow> \<exists>content. enhanced_content entity neighbors = Inr content"
    by blast+
qed

lemma mock_loop_few_first:
  assumes "few_neighbors run toLower query e"
  shows "mock_loop (Some run) toLower query topK (e # rest) acc = Inl SliceBoundsOutOfRange"
proof -
  obtain nodeID entity where e: "e = (nodeID, entity)" by (cases e)
  obtain neighbors err where g: "getNodeNeighbors (Some run) nodeID 3 = Inr (neighbors, err)"
    using getNodeNeighbors_connected by blast
  have len: "length (items neighbors) = 1 \<or> length (items neighbors) = 2"
    using assms g by (simp add: few_neighbors_def neighbor_names_def e)
  have "enhanced_content entity neighbors = Inl SliceBoundsOutOfRange"
    using enhanced_content_panics(1)[OF getNodeNeighbors_grown[OF g]] len by blast
  then show ?thesis
    using assms g by (simp add: e few_neighbors_def matched_def)
qed

lemma mock_loop_total:
  assumes "\<forall>e \<in> set es. \<not> few_neighbors run toLower query e"
  shows "\<exists>results. mock_loop (Some run) toLower query topK es acc = Inr results"
  using assms
proof (induction es arbitrary: acc)
  case Nil
  then show ?case by simp
next
  case (Cons e es)
  obtain nodeID entity where e: "e = (nodeID, entity)" by (cases e)
  show ?case
  proof (cases "matched toLower query e")
    case False
    then show ?thesis using Cons by (simp add: e matched_def)
  next
    case True
    obtain neighbors err where g: "getNodeNeighbors (Some run) nodeID 3 = Inr (neighbors, err)"
      using getNodeNeighbors_connected by blast
    have "length (items neighbors) \<noteq> 1" "length (items neighbors) \<noteq> 2"
      using Cons.prems True g by (auto simp: few_neighbors_def neighbor_names_def e)
    then obtain content where c: "enhanced_content entity neighbors = Inr content"
      using enhanced_content_panics(2)[OF getNodeNeighbors_grown[OF g]] by blast
    show ?thesis
      using True g c Cons.IH Cons.prems by (simp add: e matched_def Let_def)
  qed
qed

lemma VectorSearchEnhanced_few_first:
  assumes "few_neighbors run toLower query e"
  shows "VectorSearchEnhanced (Some run) toLower (e # rest) query topK
           = Inl SliceBoundsOutOfRange"
  by (simp add: VectorSearchEnhanced_def mock_loop_few_first[OF assms])

lemma VectorSearchEnhanced_total:
  assumes "\<forall>e \<in> set es. \<not> few_neighbors run toLower query e"
  shows "\<exists>docs. VectorSearchEnhanced (Some run) toLower es query topK = Inr (docs, None)"
proof -
  obtain results where "mock_loop (Some run) toLower query topK es [] = Inr results"
    using mock_loop_total[OF assms] by blast
  then show ?thesis by (simp add: VectorSearchEnhanced_def)
qed

lemma soup_few_neighbors: "few_neighbors one_neighbor_store ascii_toLower ''soup'' (''n1'', soup_entity)"
  by (simp add: few_neighbors_def matched_def neighbor_names_def getNodeNeighbors_def
      one_neighbor_store_def keep_name_def append_one_def nil_slice_def ascii_toLower_def
      soup_entity_def)

lemma soup_three_neighbors:
  "\<forall>e \<in> set [(''n1'', soup_entity)]. \<not> few_neighbors three_neighbor_store ascii_toLower ''soup'' e"
  by (simp add: few_neighbors_def matched_def neighbor_names_def getNodeNeighbors_def
      three_neighbor_store_def keep_name_def append_one_def nil_slice_def ascii_toLower_def
      soup_entity_def)

text \<open>
  Claim C10. Over a graph connection, \<open>VectorSearchEnhanced\<close> panics on the slice
  expression \<open>neighbors[:3]\<close> as soon as the first entity it matches has one or two
  neighbour names (some input does); and it returns for every order in which the runtime
  may visit the entity cache exactly when no matched entity has one or two neighbour
  names, that is, when each has none or at least three.
\<close>

theorem VectorSearchEnhanced_neighbors_prefix:
  "(few_neighbors run toLower query e \<longrightarrow>
      VectorSearchEnhanced (Some run) toLower (e # rest) query topK = Inl SliceBoundsOutOfRange)
   \<and> ((\<forall>order. mset order = mset entityCache \<longrightarrow>
          (\<exists>docs. VectorSearchEnhanced (Some run) toLower order query topK = Inr (docs, None)))
        \<longleftrightarrow> (\<forall>e \<in> set entityCache. \<not> few_neighbors run toLower query e))
   \<and> (\<exists>run' toLower' cache query' topK'.
         VectorSearchEnhanced (Some run') toLower' cache query' topK' = Inl SliceBoundsOutOfRange)"
proof (intro conjI impI iffI)
  assume "few_neighbors run toLower query e"
  then show "VectorSearchEnhanced (Some run) toLower (e # rest) query topK
      = Inl SliceBoundsOutOfRange"
    by (rule VectorSearchEnhanced_few_first)
next
  assume total: "\<forall>order. mset order = mset entityCache \<longrightarrow>
      (\<exists>docs. VectorSearchEnhanced (Some run) toLower order query topK = Inr (docs, None))"
  show "\<forall>e \<in> set entityCache. \<not> few_neighbors run toLower query e"
  proof
    fix e assume e: "e \<in> set entityCache"
    show "\<not> few_neighbors run toLower query e"
    proof
      assume few: "few_neighbors run toLower query e"
      have "mset (e # remove1 e entityCache) = mset entityCache" using e by simp
      then obtain docs where
        "VectorSearchEnhanced (Some run) toLower (e # remove1 e entityCache) query topK
           = Inr (docs, None)"
        using total by blast
      then show False using VectorSearchEnhanced_few_first[OF few] by simp
    qed
  qed
next
  assume none: "\<forall>e \<in> set entityCache. \<not> few_neighbors run toLower query e"
  show "\<forall>order. mset order = mset entityCache \<longrightarrow>
      (\<exists>docs. VectorSearchEnhanced (Some run) toLower order query topK = Inr (docs, None))"
  proof (intro allI impI)
    fix order :: "(string \<times> RetrievalResult) list"
    assume "mset order = mset entityCache"
    then have "set order = set entityCache" by (rule mset_eq_setD)
    then have "\<forall>e \<in> set order. \<not> few_neighbors run toLower query e" using none by simp
    then show "\<exists>docs. VectorSearchEnhanced (Some run) toLower order query topK = Inr (docs, None)"
      by (rule VectorSearchEnhanced_total)
  qed
next
  show "\<exists>run' toLower' cache query' topK'.
      VectorSearchEnhanced (Some run') toLower' cache query' topK' = Inl SliceBoundsOutOfRange"
    using VectorSearchEnhanced_few_first[OF soup_few_neighbors, of "[]" 5] by blast
qed

theorem VectorSearchEnhanced_neighbors_prefix_witness:
  "VectorSearchEnhanced (Some one_neighbor_store) ascii_toLower [(''n1'', soup_entity)] ''soup'' 5
     = Inl SliceBoundsOutOfRange
   \<and> (\<exists>docs. VectorSearchEnhanced (Some three_neighbor_store) ascii_toLower
                [(''n1'', soup_entity)] ''soup'' 5 = Inr (docs, None))"
proof -
  have a: "VectorSearchEnhanced (Some one_neighbor_store) ascii_toLower
             [(''n1'', soup_entity)] ''soup'' 5 = Inl SliceBoundsOutOfRange"
    using VectorSearchEnhanced_neighbors_prefix
      [of one_neighbor_store ascii_toLower "''soup''" "(''n1'', soup_entity)" "[]" 5,
       THEN conjunct1, THEN mp, OF soup_few_neighbors] .
  have "\<forall>order. mset order = mset [(''n1'', soup_entity)] \<longrightarrow>
          (\<exists>docs. VectorSearchEnhanced (Some three_neighbor_store) ascii_toLower order ''soup'' 5
             = Inr (docs, None))"
    using VectorSearchEnhanced_neighbors_prefix
      [of three_neighbor_store ascii_toLower "''soup''" _ _ 5 "[(''n1'', soup_entity)]",
       THEN conjunct2, THEN conjunct1, THEN iffD2, OF soup_three_neighbors] .
  then have "\<exists>docs. VectorSearchEnhanced (Some three_neighbor_store) ascii_toLower
                [(''n1'', soup_entity)] ''soup'' 5 = Inr (docs, None)"
    by blast
  with a show ?thesis by simp
qed

section \<open>Rebuilding the key mappings\<close>

lemma ids_of_append_id:
  "ids_of (append_id ident key m) k = ids_of m k @ (if k = key then [ident] else [])"
  by (simp add: ids_of_def append_id_def)

lemma dom_append_id: "dom (append_id ident key m) = insert key (dom m)"
  by (simp add: append_id_def)

lemma ids_of_fold_append:
  "ids_of (fold (append_id ident) keys m) k = ids_of m k @ replicate (count_list keys k) ident"
proof (induction keys arbitrary: m)
  case Nil
  then show ?case by simp
next
  case (Cons key keys)
  show ?case
    by (simp add: Cons.IH ids_of_append_id replicate_app_Cons_same)
qed

lemma dom_fold_append: "dom (fold (append_id ident) keys m) = set keys \<union> dom m"
  by (induction keys arbitrary: m) (auto simp: dom_append_id)

lemma ids_of_fold_index:
  "ids_of (fold (\<lambda>entry. fold (append_id (fst entry)) (keys_of (snd entry))) entries m) k
     = ids_of m k
       @ concat (map (\<lambda>entry. replicate (count_list (keys_of (snd entry)) k) (fst entry)) entries)"
  by (induction entries arbitrary: m) (simp_all add: ids_of_fold_append)

lemma dom_fold_index:
  "dom (fold (\<lambda>entry. fold (append_id (fst entry)) (keys_of (snd entry))) entries m)
     = (\<Union>entry \<in> set entries. set (keys_of (snd entry))) \<union> dom m"
  by (induction entries arbitrary: m) (auto simp: dom_fold_append)

lemma index_entity_fold:
  "index_entity = (\<lambda>entry. fold (append_id (fst entry)) (e_IndexKeys (snd entry)))"
  by (auto simp: index_entity_def fun_eq_iff)

lemma index_relation_fold:
  "index_relation = (\<lambda>entry. fold (append_id (fst entry)) (r_IndexKeys (snd entry)))"
  by (auto simp: index_relation_def fun_eq_iff)

lemma mset_concat_map: "mset (concat (map f zs)) = (\<Sum>z \<in># mset zs. mset (f z))"
  by (induction zs) auto

lemma mset_concat_map_perm:
  assumes "mset xs = mset ys"
  shows "mset (concat (map f xs)) = mset (concat (map f ys))"
  by (simp add: mset_concat_map assms)

lemma same_ids_built:
  assumes "mset xs = mset ys"
  shows "same_ids
           (fold (\<lambda>entry. fold (append_id (fst entry)) (keys_of (snd entry))) xs Map.empty k)
           (fold (\<lambda>entry. fold (append_id (fst entry)) (keys_of (snd entry))) ys Map.empty k)"
proof -
  let ?b = "\<lambda>zs. fold (\<lambda>entry. fold (append_id (fst entry)) (keys_of (snd entry))) zs Map.empty"
  have set_eq: "set xs = set ys" using assms by (rule mset_eq_setD)
  have dom_eq: "k \<in> dom (?b xs) \<longleftrightarrow> k \<in> dom (?b ys)"
    by (simp only: dom_fold_index set_eq)
  have ids: "mset (ids_of (?b xs) k) = mset (ids_of (?b ys) k)"
    unfolding ids_of_fold_index
    using mset_concat_map_perm[OF assms] by (simp add: ids_of_def)
  show ?thesis
  proof (cases "?b xs k")
    case None
    then have "?b ys k = None" using dom_eq by (auto simp: domIff)
    then show ?thesis using None by (simp add: same_ids_def)
  next
    case (Some a)
    then obtain b where b: "?b ys k = Some b" using dom_eq by (auto simp: domIff)
    then show ?thesis using Some ids by (simp add: same_ids_def ids_of_def)
  qed
qed

lemma rebuild_order_1:
  "snd (rebuildKeyMappings [] [relation_salt, relation_ginger]) ''REQUIRES''
     = Some [''rel_0_r1_i1'', ''rel_1_r1_i2'']"
  by (simp add: rebuildKeyMappings_def index_relation_def append_id_def relation_salt_def
      relation_ginger_def)

lemma rebuild_order_2:
  "snd (rebuildKeyMappings [] [relation_ginger, relation_salt]) ''REQUIRES''
     = Some [''rel_1_r1_i2'', ''rel_0_r1_i1'']"
  by (simp add: rebuildKeyMappings_def index_relation_def append_id_def relation_salt_def
      relation_ginger_def)

text \<open>
  Claim C8 as stated fails: two rebuilds that visit the same relation store in different
  orders list the relation ids of a shared key in different orders.
\<close>

theorem rebuild_order_counterexample:
  "mset [relation_ginger, relation_salt] = mset [relation_salt, relation_ginger]
   \<and> \<not> identical_mappings (rebuildKeyMappings [] [relation_salt, relation_ginger])
          (rebuildKeyMappings [] [relation_ginger, relation_salt])"
proof
  show "mset [relation_ginger, relation_salt] = mset [relation_salt, relation_ginger]"
    by (simp add: add.commute)
  show "\<not> identical_mappings (rebuildKeyMappings [] [relation_salt, relation_ginger])
          (rebuildKeyMappings [] [relation_ginger, relation_salt])"
  proof
    assume "identical_mappings (rebuildKeyMappings [] [relation_salt, relation_ginger])
          (rebuildKeyMappings [] [relation_ginger, relation_salt])"
    then have "snd (rebuildKeyMappings [] [relation_salt, relation_ginger]) ''REQUIRES''
        = snd (rebuildKeyMappings [] [relation_ginger, relation_salt]) ''REQUIRES''"
      unfolding identical_mappings_def by blast
    then show False by (simp add: rebuild_order_1 rebuild_order_2)
  qed
qed

lemma mset_map_filter:
  "mset xs = mset ys \<Longrightarrow> mset (List.map_filter f xs) = mset (List.map_filter f ys)"
proof -
  assume a: "mset xs = mset ys"
  have "\<And>zs. mset (List.map_filter f zs)
      = image_mset (\<lambda>z. the (f z)) (filter_mset (\<lambda>z. f z \<noteq> None) (mset zs))"
    by (simp add: List.map_filter_def comp_def)
  then show ?thesis using a by simp
qed

lemma map_of_perm:
  assumes "distinct (map fst xs)" and "mset xs = mset ys"
  shows "map_of xs = map_of ys"
proof -
  have "mset (map fst xs) = mset (map fst ys)" using assms(2) by simp
  then have "distinct (map fst ys)" using assms(1) by (metis mset_eq_imp_distinct_iff)
  moreover have "set xs = set ys" using assms(2) by (rule mset_eq_setD)
  ultimately show ?thesis using assms(1) by (simp add: map_of_inject_set)
qed

lemma same_ids_mset: "same_ids a b \<Longrightarrow> mset (case a of None \<Rightarrow> [] | Some ids \<Rightarrow> ids)
    = mset (case b of None \<Rightarrow> [] | Some ids \<Rightarrow> ids)"
  by (auto simp: same_ids_def split: option.splits)

text \<open>
  Claim C8, as amended. Two rebuilds from the same entity and relation stores, whatever the
  orders in which they visit them, give every index key the same entity ids and the same
  relation ids with the same multiplicities: the two id lists of a key are permutations of
  each other (and the key is present in both mappings or in neither), so \<open>GetEntitiesByKey\<close>
  and \<open>GetRelationsByKey\<close> return the same records up to order. Two rebuilds that visit the
  stores in the same order give identical mappings.
\<close>

theorem rebuild_same_store:
  assumes "mset entities' = mset entities" and "mset relations' = mset relations"
    and "distinct (map fst entities)" and "distinct (map fst relations)"
  shows "same_ids (fst (rebuildKeyMappings entities relations) key)
           (fst (rebuildKeyMappings entities' relations') key)
       \<and> same_ids (snd (rebuildKeyMappings entities relations) key)
           (snd (rebuildKeyMappings entities' relations') key)
       \<and> mset (GetEntitiesByKey entities (fst (rebuildKeyMappings entities relations)) key)
         = mset (GetEntitiesByKey entities' (fst (rebuildKeyMappings entities' relations')) key)
       \<and> mset (GetRelationsByKey relations (snd (rebuildKeyMappings entities relations)) key)
         = mset (GetRelationsByKey relations' (snd (rebuildKeyMappings entities' relations')) key)
       \<and> identical_mappings (rebuildKeyMappings entities relations)
           (rebuildKeyMappings entities relations)"
proof -
  have e: "same_ids (fst (rebuildKeyMappings entities relations) key)
           (fst (rebuildKeyMappings entities' relations') key)"
    unfolding rebuildKeyMappings_def fst_conv index_entity_fold
    by (rule same_ids_built[OF assms(1)[symmetric]])
  have r: "same_ids (snd (rebuildKeyMappings entities relations) key)
           (snd (rebuildKeyMappings entities' relations') key)"
    unfolding rebuildKeyMappings_def snd_conv index_relation_fold
    by (rule same_ids_built[OF assms(2)[symmetric]])
  have me: "map_of entities = map_of entities'"
    by (rule map_of_perm[OF assms(3) assms(1)[symmetric]])
  have mr: "map_of relations = map_of relations'"
    by (rule map_of_perm[OF assms(4) assms(2)[symmetric]])
  have ge: "mset (GetEntitiesByKey entities (fst (rebuildKeyMappings entities relations)) key)
         = mset (GetEntitiesByKey entities' (fst (rebuildKeyMappings entities' relations')) key)"
    unfolding GetEntitiesByKey_def me
    by (rule mset_map_filter[OF same_ids_mset[OF e]])
  have gr: "mset (GetRelationsByKey relations (snd (rebuildKeyMappings entities relations)) key)
         = mset (GetRelationsByKey relations' (snd (rebuildKeyMappings entities' relations')) key)"
    unfolding GetRelationsByKey_def mr
    by (rule mset_map_filter[OF same_ids_mset[OF r]])
  have "identical_mappings (rebuildKeyMappings entities relations)
           (rebuildKeyMappings entities relations)"
    by (simp add: identical_mappings_def)
  with e r ge gr show ?thesis by simp
qed

theorem rebuild_same_store_witness:
  "same_ids (Some [''rel_0_r1_i1'', ''rel_1_r1_i2'']) (Some [''rel_1_r1_i2'', ''rel_0_r1_i1''])
   \<and> mset (GetRelationsByKey [relation_salt, relation_ginger]
              (snd (rebuildKeyMappings [] [relation_salt, relation_ginger])) ''REQUIRES'')
     = mset (GetRelationsByKey [relation_ginger, relation_salt]
              (snd (rebuildKeyMappings [] [relation_ginger, relation_salt])) ''REQUIRES'')"
proof -
  have p: "mset [relation_ginger, relation_salt] = mset [relation_salt, relation_ginger]"
    by (simp add: add.commute)
  have d: "distinct (map fst [relation_salt, relation_ginger])"
    by (simp add: relation_salt_def relation_ginger_def)
  have n: "mset ([] :: (string \<times> EntityKeyValue) list) = mset []" by simp
  have dn: "distinct (map fst ([] :: (string \<times> EntityKeyValue) list))" by simp
  from rebuild_same_store [OF n p dn d, of "''REQUIRES''"]
  show ?thesis by (simp add: rebuild_order_1 rebuild_order_2)
qed

section \<open>The documents HybridSearch receives\<close>

lemma dual_document_metadata:
  "MetaData (dual_document r) \<noteq> None"
  "meta_get (dual_document r) ''node_id'' = Some (VString (NodeID r))"
  "meta_get (dual_document r) ''relevance_score'' = Some (VFloat (RelevanceScore r))"
  by (simp_all add: dual_document_def meta_get_def Let_def map_of_update_same
      map_of_update_other)

lemma vector_document_metadata:
  "MetaData (vector_document r) \<noteq> None"
  "meta_get (vector_document r) ''score'' = Some (VFloat (RelevanceScore r))"
  by (simp_all add: vector_document_def meta_get_def Let_def map_of_update_same
      map_of_update_other)

lemma DualLevelRetrieval_documents:
  assumes "DualLevelRetrieval sort_Slice entityLevel topicLevel topK = Inr dr"
  shows "snd dr = None \<and> (\<forall>d \<in> set (docs_or_empty dr). \<exists>r. d = dual_document r)"
proof -
  obtain results where "dr = (appended (map dual_document results), None)"
    using assms by (auto simp: DualLevelRetrieval_def Let_def split: sum.splits)
  then show ?thesis
    by (auto simp: docs_or_empty_def appended_def)
qed

lemma VectorSearchEnhanced_documents:
  assumes "VectorSearchEnhanced driver toLower entityCache query topK = Inr vr"
  shows "snd vr = None \<and> (\<forall>d \<in> set (docs_or_empty vr). \<exists>r. d = vector_document r)"
proof -
  obtain results where "vr = (appended (map vector_document results), None)"
    using assms by (auto simp: VectorSearchEnhanced_def split: sum.splits)
  then show ?thesis
    by (auto simp: docs_or_empty_def appended_def)
qed

text \<open>
  The documents that \<open>HybridSearch\<close> merges are built by the two retrievals with a fresh
  metadata map each, so the merge never assigns to a nil map, and what it annotates is the
  \<open>RelevanceScore\<close> of the dual-level result and \<open>max 0 (1 - RelevanceScore)\<close> of the vector
  result.
\<close>

lemma HybridSearch_of_retrievals:
  assumes "DualLevelRetrieval sort_Slice entityLevel topicLevel topK = Inr dr"
    and "VectorSearchEnhanced driver toLower entityCache query topK = Inr vr"
    and "0 \<le> topK"
  shows "\<exists>out. HybridSearch sprintv (Inr dr) (Inr vr) topK = Inr (out, None)
           \<and> elems out = annotate_from hybrid_annotate 0
               (round_robin (entry_docID sprintv) (tagged DualLevel (docs_or_empty dr))
                  (tagged VectorEnhanced (docs_or_empty vr)) (nat topK))"
proof -
  have "\<forall>d \<in> set (docs_or_empty dr) \<union> set (docs_or_empty vr). MetaData d \<noteq> None"
  proof
    fix d assume "d \<in> set (docs_or_empty dr) \<union> set (docs_or_empty vr)"
    then consider r where "d = dual_document r" | r where "d = vector_document r"
      using DualLevelRetrieval_documents[OF assms(1)]
        VectorSearchEnhanced_documents[OF assms(2)]
      by blast
    then show "MetaData d \<noteq> None"
      by cases (simp_all add: dual_document_metadata(1) vector_document_metadata(1))
  qed
  from hybrid_merge_round_robin[OF this assms(3), of sprintv]
  obtain out where "hybrid_merge sprintv (docs_or_empty dr) (docs_or_empty vr) topK = Inr out"
    "elems out = annotate_from hybrid_annotate 0
               (round_robin (entry_docID sprintv) (tagged DualLevel (docs_or_empty dr))
                  (tagged VectorEnhanced (docs_or_empty vr)) (nat topK))"
    by (elim exE conjE)
  then show ?thesis by (simp add: HybridSearch_def)
qed

lemma final_score_of_retrievals:
  "final_score_spec (DualLevel, i, dual_document r) = VFloat (RelevanceScore r)"
  "final_score_spec (VectorEnhanced, i, vector_document r) = VFloat (max 0 (1 - RelevanceScore r))"
  by (simp_all add: final_score_spec_def dual_document_metadata vector_document_metadata)

end
